theory Spec2Isabelle
  imports Complex_Main "HOL-Library.Word"
begin

unbundle bit_operations_syntax

section \<open>Python values\<close>

text \<open>
  The notebooks are Python. Python integers are unbounded and are modelled as \<open>int\<close>;
  Python floats (angles, voltages, clock readings) are modelled as \<open>real\<close>, so rounding
  of the floating-point unit is not part of the model; \<open>bytes\<close> objects and \<open>str\<close>
  objects are \<open>string\<close> (one \<open>char\<close> per byte, all text here is ASCII).
  An exception is a value \<open>Inl e\<close> of a sum type.
\<close>

datatype py_error = ValueError | TypeError

text \<open>Python's \<open>int(x)\<close> on a float: truncation towards zero.\<close>

definition py_int :: "real \<Rightarrow> int" where
  "py_int x = (if x < 0 then \<lceil>x\<rceil> else \<lfloor>x\<rfloor>)"

section \<open>Angle codec\<close>

text \<open>\<^verbatim>\<open>ENCODER_RESOLUTION = 43.8 * 10**(-6)\<close>: radians per encoder pulse.\<close>

definition ENCODER_RESOLUTION :: real where
  "ENCODER_RESOLUTION = 43.8 * (1 / 10 ^ 6)"

text \<open>
  \<^verbatim>\<open>
  def sign_extend(value, bits):
      sign_bit = 1 << (bits - 1)
      return (value & (sign_bit - 1)) - (value & sign_bit)
  \<close>
  A negative shift count raises ValueError in Python.
\<close>

definition sign_extend :: "int \<Rightarrow> int \<Rightarrow> py_error + int" where
  "sign_extend val bits =
     (if bits - 1 < 0 then Inl ValueError
      else let sign_bit = push_bit (nat (bits - 1)) (1::int)
           in Inr ((val AND (sign_bit - 1)) - (val AND sign_bit)))"

text \<open>
  The count field that \<open>move_to\<close> and \<open>move_by\<close> put on the wire:
  \<^verbatim>\<open>int(angle / ENCODER_RESOLUTION) & 0xffffffff\<close>.
  The source divides by the module constant; the resolution is a parameter here so that
  properties can be stated for every positive resolution. The constant is not zero, so the
  division of the source never raises.
\<close>

definition angle_to_counts :: "real \<Rightarrow> real \<Rightarrow> int" where
  "angle_to_counts angle resolution = py_int (angle / resolution) AND 0xffffffff"

text \<open>The product \<^verbatim>\<open>counts * ENCODER_RESOLUTION\<close> of \<open>get_angle\<close>.\<close>

definition counts_to_angle :: "int \<Rightarrow> real \<Rightarrow> real" where
  "counts_to_angle counts resolution = real_of_int counts * resolution"

section \<open>Formatting and parsing\<close>

text \<open>
  The printf conversions \<^verbatim>\<open>%08X\<close> and \<^verbatim>\<open>%02x\<close> of Python's bytes formatting:
  hexadecimal digits, upper or lower case, most significant first, a minus sign for a
  negative number, zeros between sign and digits up to the width. No digit is cut off
  when the number needs more than the width.
\<close>

definition hex_digit :: "bool \<Rightarrow> nat \<Rightarrow> char" where
  "hex_digit upper d =
     (if upper then ''0123456789ABCDEF'' else ''0123456789abcdef'') ! d"

fun hex_of_nat :: "bool \<Rightarrow> nat \<Rightarrow> string" where
  "hex_of_nat upper n =
     (if n < 16 then [hex_digit upper n]
      else hex_of_nat upper (n div 16) @ [hex_digit upper (n mod 16)])"

declare hex_of_nat.simps [simp del]

definition format_hex :: "bool \<Rightarrow> nat \<Rightarrow> int \<Rightarrow> string" where
  "format_hex upper width n =
     (let digits = hex_of_nat upper (nat \<bar>n\<bar>);
          sign = (if n < 0 then ''-'' else [])
      in sign @ replicate (width - length sign - length digits) (CHR ''0'') @ digits)"

text \<open>The two bytes \<^verbatim>\<open>\r\n\<close>.\<close>

definition CRLF :: string where
  "CRLF = [CHR 0x0D, CHR 0x0A]"

text \<open>
  \<^verbatim>\<open>str(response)\<close> of a bytes object is its repr: \<^verbatim>\<open>b'...'\<close>, with double quotes when
  the bytes hold a single quote and no double quote; the quote and the backslash are
  escaped with a backslash, tab, newline and carriage return are written with their
  letters, every other byte below the space or from 0x7f on as \<^verbatim>\<open>\xhh\<close>.
\<close>

definition repr_byte :: "char \<Rightarrow> char \<Rightarrow> string" where
  "repr_byte quote c =
     (if c = quote \<or> c = CHR 0x5C then [CHR 0x5C, c]
      else if c = CHR 0x09 then [CHR 0x5C, CHR ''t'']
      else if c = CHR 0x0A then [CHR 0x5C, CHR ''n'']
      else if c = CHR 0x0D then [CHR 0x5C, CHR ''r'']
      else if (of_char c :: nat) < 0x20 \<or> 0x7F \<le> (of_char c :: nat)
        then [CHR 0x5C, CHR ''x'',
              hex_digit False (of_char c div 16), hex_digit False (of_char c mod 16)]
      else [c])"

definition bytes_repr :: "string \<Rightarrow> string" where
  "bytes_repr b =
     (let quote = (if CHR 0x27 \<in> set b \<and> CHR 0x22 \<notin> set b then CHR 0x22 else CHR 0x27)
      in CHR ''b'' # quote # concat (map (repr_byte quote) b) @ [quote])"

text \<open>
  The slice \<^verbatim>\<open>s[5:-5]\<close>: from index 5 up to, not including, the fifth character from
  the end; empty when the string has ten characters or fewer.
\<close>

definition slice_5_m5 :: "string \<Rightarrow> string" where
  "slice_5_m5 s = take (length s - 10) (drop 5 s)"

text \<open>
  \<^verbatim>\<open>int(s, 16)\<close> on a string: white space around the literal is skipped, then an optional
  sign, an optional prefix \<^verbatim>\<open>0x\<close> or \<^verbatim>\<open>0X\<close> (one underscore may follow it), then at
  least one hexadecimal digit, with single underscores allowed between digits. Anything else
  raises ValueError.
\<close>

definition is_space :: "char \<Rightarrow> bool" where
  "is_space c \<longleftrightarrow> c \<in> set [CHR 0x20, CHR 0x09, CHR 0x0A, CHR 0x0B, CHR 0x0C, CHR 0x0D]"

definition hex_value :: "char \<Rightarrow> nat option" where
  "hex_value c =
     (let k = (of_char c :: nat) in
      if 0x30 \<le> k \<and> k \<le> 0x39 then Some (k - 0x30)
      else if 0x41 \<le> k \<and> k \<le> 0x46 then Some (k - 0x41 + 10)
      else if 0x61 \<le> k \<and> k \<le> 0x66 then Some (k - 0x61 + 10)
      else None)"

fun digits_value :: "int \<Rightarrow> bool \<Rightarrow> string \<Rightarrow> int option" where
  "digits_value acc after_underscore [] = (if after_underscore then None else Some acc)"
| "digits_value acc after_underscore (c # cs) =
     (if c = CHR ''_'' then (if after_underscore then None else digits_value acc True cs)
      else case hex_value c of
             None \<Rightarrow> None
           | Some d \<Rightarrow> digits_value (16 * acc + int d) False cs)"

definition int_base16 :: "string \<Rightarrow> py_error + int" where
  "int_base16 s =
     (let s1 = dropWhile is_space s;
          negative = (take 1 s1 = ''-'');
          s2 = (if take 1 s1 = ''+'' \<or> take 1 s1 = ''-'' then drop 1 s1 else s1);
          s3 = (if take 2 s2 = ''0x'' \<or> take 2 s2 = ''0X''
                then (if take 1 (drop 2 s2) = ''_'' then drop 3 s2 else drop 2 s2)
                else s2);
          body = takeWhile (\<lambda>c. c = CHR ''_'' \<or> hex_value c \<noteq> None) s3;
          rest = dropWhile (\<lambda>c. c = CHR ''_'' \<or> hex_value c \<noteq> None) s3
      in if body = [] \<or> hd body = CHR ''_'' \<or> \<not> list_all is_space rest then Inl ValueError
         else case digits_value 0 False body of
                None \<Rightarrow> Inl ValueError
              | Some n \<Rightarrow> Inr (if negative then - n else n))"

section \<open>The serial port\<close>

text \<open>
  \<^verbatim>\<open>ser = serial.Serial('/dev/ttyUSB0', timeout=1)\<close>. The port is modelled by what was
  written to it, in order, and by the results of the \<open>readline\<close> calls still to come.
  \<open>readline\<close> returns the bytes received up to a newline, or what has arrived when the
  timeout of one second expires: a silent device gives \<^verbatim>\<open>b''\<close>. A port with nothing
  left in \<open>incoming\<close> is a device that stays silent.
\<close>

record serial =
  written :: "string list"
  incoming :: "string list"

definition ser_write :: "string \<Rightarrow> serial \<Rightarrow> serial" where
  "ser_write command s = s\<lparr>written := written s @ [command]\<rparr>"

definition ser_readline :: "serial \<Rightarrow> string \<times> serial" where
  "ser_readline s =
     (case incoming s of
        [] \<Rightarrow> ([], s)
      | line # lines \<Rightarrow> (line, s\<lparr>incoming := lines\<rparr>))"

section \<open>Rotation mount command API\<close>

text \<open>
  \<^verbatim>\<open>
  def move_to(angle):
      command = b'0ma%08X\r\n' % (int(angle / ENCODER_RESOLUTION) & 0xffffffff)
      print(command)
      ser.write(command)
      response = ser.readline()
  \<close>
  and \<open>move_by\<close> the same with \<^verbatim>\<open>0mr\<close>. The response is read and dropped.
\<close>

definition move_to :: "real \<Rightarrow> serial \<Rightarrow> serial" where
  "move_to angle s =
     (let command = ''0ma'' @ format_hex True 8 (angle_to_counts angle ENCODER_RESOLUTION) @ CRLF;
          (response, s') = ser_readline (ser_write command s)
      in s')"

definition move_by :: "real \<Rightarrow> serial \<Rightarrow> serial" where
  "move_by angle s =
     (let command = ''0mr'' @ format_hex True 8 (angle_to_counts angle ENCODER_RESOLUTION) @ CRLF;
          (response, s') = ser_readline (ser_write command s)
      in s')"

definition go_home :: "serial \<Rightarrow> serial" where
  "go_home s = move_to 0 s"

text \<open>
  \<^verbatim>\<open>
  def get_angle():
      command = b'0gp\r\n'
      ser.write(command)
      response = ser.readline()
      angle = sign_extend(int('0X' + str(response)[5:-5], 16) & 0xffffffff, 32) * ENCODER_RESOLUTION
      return angle
  \<close>
  The result comes with the port as the call leaves it, also when it raises.
\<close>

definition get_angle :: "serial \<Rightarrow> (py_error + real) \<times> serial" where
  "get_angle s =
     (let command = ''0gp'' @ CRLF;
          (response, s') = ser_readline (ser_write command s)
      in case int_base16 (''0X'' @ slice_5_m5 (bytes_repr response)) of
           Inl e \<Rightarrow> (Inl e, s')
         | Inr n \<Rightarrow>
             (case sign_extend (n AND 0xffffffff) 32 of
                Inl e \<Rightarrow> (Inl e, s')
              | Inr counts \<Rightarrow> (Inr (counts_to_angle counts ENCODER_RESOLUTION), s')))"

text \<open>
  \<^verbatim>\<open>
  def set_speed(percent):
      percent = np.clip(percent, 0, 100)
      command = b'0sv%02x' % int(percent)
      ser.write(command)
      response = ser.readline()
  \<close>
\<close>

definition np_clip :: "real \<Rightarrow> real \<Rightarrow> real \<Rightarrow> real" where
  "np_clip x lo hi = min (max x lo) hi"

definition set_speed :: "real \<Rightarrow> serial \<Rightarrow> serial" where
  "set_speed percent s =
     (let percent' = np_clip percent 0 100;
          command = ''0sv'' @ format_hex False 2 (py_int percent');
          (response, s') = ser_readline (ser_write command s)
      in s')"

section \<open>The PID controller\<close>

text \<open>
  Both notebooks build their controller with the \<open>simple_pid\<close> package,
  \<^verbatim>\<open>pid = PID(k_p, k_i, k_d, setpoint=target_voltage, sample_time=update_interval)\<close>,
  and call it as \<^verbatim>\<open>control = pid(measured_voltage)\<close>. The package is an external
  dependency of the repository; the record and the two functions below follow its
  \<open>PID\<close> class with the options the notebooks leave at their defaults
  (\<open>output_limits = (None, None)\<close>, \<open>auto_mode\<close> on, proportional term on the error).
  The controller reads its own monotonic clock; the reading is the argument \<open>now\<close>.
  The run recorded in the simulation notebook shows the same behaviour: every printed
  control value equals the printed error, the first one being -0.8.
\<close>

record PID =
  Kp :: real
  Ki :: real
  Kd :: real
  setpoint :: real
  sample_time :: "real option"
  output_limits :: "real option \<times> real option"
  proportional :: real
  integral :: real
  derivative :: real
  last_time :: real
  last_output :: "real option"
  last_input :: "real option"

text \<open>
  \<^verbatim>\<open>
  def _clamp(value, limits):
      lower, upper = limits
      if value is None: return None
      elif (upper is not None) and (value > upper): return upper
      elif (lower is not None) and (value < lower): return lower
      return value
  \<close>
\<close>

definition clamp :: "real \<Rightarrow> real option \<times> real option \<Rightarrow> real" where
  "clamp v limits =
     (case limits of (lower, upper) \<Rightarrow>
        if (case upper of Some u \<Rightarrow> v > u | None \<Rightarrow> False) then the upper
        else if (case lower of Some l \<Rightarrow> v < l | None \<Rightarrow> False) then the lower
        else v)"

text \<open>The constructor, with the reading of the clock at construction.\<close>

definition PID_init :: "real \<Rightarrow> real \<Rightarrow> real \<Rightarrow> real \<Rightarrow> real option \<Rightarrow> real \<Rightarrow> PID" where
  "PID_init kp ki kd sp st now =
     \<lparr>Kp = kp, Ki = ki, Kd = kd, setpoint = sp, sample_time = st,
      output_limits = (None, None),
      proportional = 0, integral = clamp 0 (None, None), derivative = 0,
      last_time = now, last_output = None, last_input = None\<rparr>"

text \<open>
  The call \<^verbatim>\<open>pid(input_)\<close>:
  \<^verbatim>\<open>
  now = _current_time()
  dt = now - self._last_time if (now - self._last_time) else 1e-16
  if self.sample_time is not None and dt < self.sample_time and self._last_output is not None:
      return self._last_output
  error = self.setpoint - input_
  d_input = input_ - (self._last_input if (self._last_input is not None) else input_)
  self._proportional = self.Kp * error
  self._integral += self.Ki * error * dt
  self._integral = _clamp(self._integral, self.output_limits)
  self._derivative = -self.Kd * d_input / dt
  output = self._proportional + self._integral + self._derivative
  output = _clamp(output, self.output_limits)
  self._last_output = output
  self._last_input = input_
  self._last_time = now
  return output
  \<close>
  The result is \<open>None\<close> where Python returns \<open>None\<close>.
\<close>

definition pid_call :: "PID \<Rightarrow> real \<Rightarrow> real \<Rightarrow> real option \<times> PID" where
  "pid_call p input now =
     (let dt = (if now - last_time p \<noteq> 0 then now - last_time p else 1 / 10 ^ 16)
      in if (case sample_time p of Some st \<Rightarrow> dt < st | None \<Rightarrow> False) \<and> last_output p \<noteq> None
         then (last_output p, p)
         else
           let error = setpoint p - input;
               d_input = input - (case last_input p of Some li \<Rightarrow> li | None \<Rightarrow> input);
               prop = Kp p * error;
               integ = clamp (integral p + Ki p * error * dt) (output_limits p);
               deriv = - Kd p * d_input / dt;
               output = clamp (prop + integ + deriv) (output_limits p)
           in (Some output,
               p\<lparr>proportional := prop, integral := integ, derivative := deriv,
                 last_output := Some output, last_input := Some input, last_time := now\<rparr>))"

section \<open>The control loop\<close>

text \<open>
  The settings of the control cell:
  \<^verbatim>\<open>k_p, k_i, k_d = 1, 0, 0\<close>, \<^verbatim>\<open>target_voltage = 0.2\<close>, \<^verbatim>\<open>update_interval = 5\<close>.
\<close>

definition k_p :: real where "k_p = 1"
definition k_i :: real where "k_i = 0"
definition k_d :: real where "k_d = 0"
definition target_voltage :: real where "target_voltage = 0.2"
definition update_interval :: real where "update_interval = 5"

record loop_state =
  pid :: PID
  last_update_time :: real
  times :: "real list"
  voltages :: "real list"
  ser :: serial

text \<open>
  The state before the first iteration: the controller is built at clock reading
  \<open>clock0\<close>, \<open>last_update_time = time.time()\<close> is \<open>now0\<close>, the port is \<open>s\<close>.
\<close>

definition loop_init :: "real \<Rightarrow> real \<Rightarrow> serial \<Rightarrow> loop_state" where
  "loop_init clock0 now0 s =
     \<lparr>pid = PID_init k_p k_i k_d target_voltage (Some update_interval) clock0,
      last_update_time = now0, times = [], voltages = [], ser = s\<rparr>"

text \<open>
  One iteration of \<^verbatim>\<open>while True:\<close>
  \<^verbatim>\<open>
      measured_voltage = get_voltage()
      control = pid(measured_voltage)
      now = time.time()
      times.append(now)
      voltages.append(measured_voltage)
      if (now - last_update_time >= update_interval):
          rotation_mount_angle = get_angle()
          print("... u(t): %+4f ..." % (now, target_voltage - measured_voltage, control,
                                        rotation_mount_angle, measured_voltage))
          move_to(rotation_mount_angle + control)
          last_update_time = now
  \<close>
  The inputs of an iteration are the voltage that \<open>get_voltage\<close> measures, the reading
  of the controller's clock and the reading \<open>now\<close> of \<open>time.time()\<close>. The loop has no
  \<open>try\<close>: an exception leaves the loop, and the result is then \<open>Inl\<close> of the exception
  and the state at that moment. Formatting \<open>None\<close> with \<^verbatim>\<open>%+4f\<close> raises TypeError.
\<close>

definition loop_body ::
  "real \<Rightarrow> real \<Rightarrow> real \<Rightarrow> loop_state \<Rightarrow> py_error \<times> loop_state + loop_state" where
  "loop_body measured_voltage clock now st =
     (let (control, pid') = pid_call (pid st) measured_voltage clock;
          st1 = st\<lparr>pid := pid', times := times st @ [now],
                   voltages := voltages st @ [measured_voltage]\<rparr>
      in if now - last_update_time st1 \<ge> update_interval then
           (case get_angle (ser st1) of
              (Inl e, s') \<Rightarrow> Inl (e, st1\<lparr>ser := s'\<rparr>)
            | (Inr rotation_mount_angle, s') \<Rightarrow>
                (case control of
                   None \<Rightarrow> Inl (TypeError, st1\<lparr>ser := s'\<rparr>)
                 | Some u \<Rightarrow>
                     Inr (st1\<lparr>ser := move_to (rotation_mount_angle + u) s',
                              last_update_time := now\<rparr>)))
         else Inr st1)"

text \<open>
  The loop over the iterations whose inputs are given, in order: it stops at the first
  exception; \<open>Inr\<close> is the state of a loop that is still running.
\<close>

fun control_loop ::
  "loop_state \<Rightarrow> (real \<times> real \<times> real) list \<Rightarrow> py_error \<times> loop_state + loop_state" where
  "control_loop st [] = Inr st"
| "control_loop st ((measured_voltage, clock, now) # rest) =
     (case loop_body measured_voltage clock now st of
        Inl failure \<Rightarrow> Inl failure
      | Inr st' \<Rightarrow> control_loop st' rest)"

section \<open>The simulation\<close>

text \<open>
  \<^verbatim>\<open>
  def get_voltage(rotation_mount_angle):
      polarization_angle = rotation_mount_angle * 2
      return np.cos(polarization_angle)**2
  \<close>
\<close>

definition sim_get_voltage :: "real \<Rightarrow> real" where
  "sim_get_voltage rotation_mount_angle =
     (let polarization_angle = rotation_mount_angle * 2 in (cos polarization_angle) ^ 2)"

text \<open>
  The simulation cell: \<^verbatim>\<open>Kp, Ki, Kd = 1, 0, 0\<close>, \<^verbatim>\<open>update_interval = 3\<close>,
  \<^verbatim>\<open>pid = PID(Kp, Ki, Kd, setpoint=0.2, sample_time=update_interval)\<close>,
  \<^verbatim>\<open>rotation_mount_angle = 0\<close>. Each printed line is kept as the tuple
  (error, control, mount angle, voltage).
\<close>

definition sim_update_interval :: real where "sim_update_interval = 3"

record sim_state =
  sim_pid :: PID
  rotation_mount_angle :: real
  start_time :: real
  sim_last_update_time :: real
  sim_times :: "real list"
  sim_voltages :: "real list"
  printed :: "(real \<times> real \<times> real \<times> real) list"

definition sim_init :: "real \<Rightarrow> real \<Rightarrow> real \<Rightarrow> sim_state" where
  "sim_init clock0 t_start t_last =
     \<lparr>sim_pid = PID_init 1 0 0 0.2 (Some sim_update_interval) clock0,
      rotation_mount_angle = 0, start_time = t_start, sim_last_update_time = t_last,
      sim_times = [], sim_voltages = [], printed = []\<rparr>"

text \<open>
  The clock is read five times in an iteration: by the \<open>while\<close> condition, by the
  controller, for \<open>times.append\<close>, by the \<open>if\<close> and for \<open>last_update_time\<close>.
\<close>

record sim_clock =
  t_while :: real
  t_pid :: real
  t_append :: real
  t_if :: real
  t_update :: real

text \<open>
  \<^verbatim>\<open>
      measured_voltage = get_voltage(rotation_mount_angle)
      control = pid(measured_voltage)
      times.append(time.time())
      voltages.append(measured_voltage)
      if (time.time() - last_update_time >= update_interval):
          rotation_mount_angle += control
          print("error: %+4f | control: %+4f | mount angle: %+4f | voltage: %+4f"
                % (pid.setpoint - measured_voltage, control, rotation_mount_angle,
                   get_voltage(rotation_mount_angle)))
          last_update_time = time.time()
  \<close>
  Adding \<open>None\<close> to the angle raises TypeError.
\<close>

definition sim_body :: "sim_clock \<Rightarrow> sim_state \<Rightarrow> py_error + sim_state" where
  "sim_body c st =
     (let measured_voltage = sim_get_voltage (rotation_mount_angle st);
          (control, pid') = pid_call (sim_pid st) measured_voltage (t_pid c);
          st1 = st\<lparr>sim_pid := pid', sim_times := sim_times st @ [t_append c],
                   sim_voltages := sim_voltages st @ [measured_voltage]\<rparr>
      in if t_if c - sim_last_update_time st1 \<ge> sim_update_interval then
           (case control of
              None \<Rightarrow> Inl TypeError
            | Some u \<Rightarrow>
                let angle' = rotation_mount_angle st1 + u
                in Inr (st1\<lparr>rotation_mount_angle := angle',
                            printed := printed st1 @
                              [(setpoint pid' - measured_voltage, u, angle',
                                sim_get_voltage angle')],
                            sim_last_update_time := t_update c\<rparr>))
         else Inr st1)"

text \<open>\<^verbatim>\<open>while time.time() - start_time < 45:\<close> over the iterations whose clock readings are given.\<close>

fun sim_loop :: "sim_state \<Rightarrow> sim_clock list \<Rightarrow> py_error + sim_state" where
  "sim_loop st [] = Inr st"
| "sim_loop st (c # cs) =
     (if t_while c - start_time st < 45 then
        (case sim_body c st of
           Inl e \<Rightarrow> Inl e
         | Inr st' \<Rightarrow> sim_loop st' cs)
      else Inr st)"

section \<open>Interval evaluation of the cosine\<close>

text \<open>
  The plant of the simulation is a cosine, so its values are not rational numbers. For the
  numerical properties of the simulated run the cosine is enclosed between fixed-point
  bounds: the Taylor polynomial in Horner form, evaluated on integers scaled by \<open>fx\<close>,
  rounded outwards at every step. These functions are tools of the proofs, not part of the
  program; their soundness is proved in the section on the cosine below.
\<close>

fun cos_horner :: "nat \<Rightarrow> nat \<Rightarrow> real \<Rightarrow> real" where
  "cos_horner 0 j y = 1"
| "cos_horner (Suc d) j y = 1 - y / (real (2 * j + 1) * real (2 * j + 2)) * cos_horner d (Suc j) y"

definition fx :: int where "fx = 10 ^ 16"

fun cos_iv :: "nat \<Rightarrow> nat \<Rightarrow> int \<Rightarrow> int \<Rightarrow> (int \<times> int) option" where
  "cos_iv 0 j Yl Yu = Some (fx, fx)"
| "cos_iv (Suc d) j Yl Yu =
     (case cos_iv d (Suc j) Yl Yu of
        None \<Rightarrow> None
      | Some (L, U) \<Rightarrow>
          if L < 0 then None
          else Some (fx - ((Yu * U) div (int ((2 * j + 1) * (2 * j + 2)) * fx) + 1),
                     fx - (Yl * L) div (int ((2 * j + 1) * (2 * j + 2)) * fx)))"

text \<open>
  Bounds for \<open>cos (P / fx)\<close>, for \<open>0 \<le> P \<le> 2 * fx\<close>: twelve terms of the series, the
  remainder is below \<open>1 / fx\<close>.
\<close>

definition cos_bounds :: "int \<Rightarrow> (int \<times> int) option" where
  "cos_bounds P =
     (case cos_iv 11 0 (P * P div fx) (P * P div fx + 1) of
        None \<Rightarrow> None
      | Some (L, U) \<Rightarrow> Some (L - 1, U + 1))"

text \<open>
  Bounds for \<open>get_voltage\<close> on an interval of angles \<open>[fst I / fx, snd I / fx]\<close> between
  \<open>-1\<close> and \<open>0\<close>, and for the angle after one step; \<open>trace_iv n\<close> lists the intervals
  of the angle and of the voltage for \<open>n\<close> successive steps.
\<close>

definition volt_iv :: "int \<times> int \<Rightarrow> (int \<times> int) option" where
  "volt_iv I =
     (if snd I \<le> 0 \<and> - fx \<le> fst I then
        (case (cos_bounds (- 2 * fst I), cos_bounds (- 2 * snd I)) of
           (Some (cl, cl'), Some (cu', cu)) \<Rightarrow>
             if 0 \<le> cl then Some (cl * cl div fx, cu * cu div fx + 1)
             else if cu \<le> 0 then Some (cu * cu div fx, cl * cl div fx + 1)
             else None
         | _ \<Rightarrow> None)
      else None)"

text \<open>
  One step of the simulated loop with gains 1, 0, 0: the angle moves by the error
  \<open>0.2 - get_voltage(angle)\<close>.
\<close>

definition sim_tick :: "real \<Rightarrow> real" where
  "sim_tick a = a + (0.2 - sim_get_voltage a)"

fun trace_iv :: "nat \<Rightarrow> int \<times> int \<Rightarrow> ((int \<times> int) \<times> (int \<times> int)) list option" where
  "trace_iv 0 I = Some []"
| "trace_iv (Suc n) I =
     (case volt_iv I of
        None \<Rightarrow> None
      | Some V \<Rightarrow>
          (case trace_iv n (fst I + fx div 5 - snd V, snd I + fx div 5 - fst V) of
             None \<Rightarrow> None
           | Some r \<Rightarrow> Some ((I, V) # r)))"

definition in_iv :: "int \<times> int \<Rightarrow> real \<Rightarrow> bool" where
  "in_iv I x \<longleftrightarrow> real_of_int (fst I) / real_of_int fx \<le> x \<and> x \<le> real_of_int (snd I) / real_of_int fx"

section \<open>Sequences of controller calls\<close>

text \<open>
  The controller after the calls \<open>pid(x)\<close> made at the clock readings \<open>t\<close>, for the
  pairs \<open>(x, t)\<close> of the list, in order.
\<close>

definition pid_calls :: "PID \<Rightarrow> (real \<times> real) list \<Rightarrow> PID" where
  "pid_calls p cs = foldl (\<lambda>q (x, t). snd (pid_call q x t)) p cs"

section \<open>The recorded run of the simulation\<close>

text \<open>
  The output stored with the simulation cell, one tuple
  (error, control, mount angle, voltage) per printed line.
\<close>

definition recorded_output :: "(real \<times> real \<times> real \<times> real) list" where
  "recorded_output =
     [(- 0.800000, - 0.800000, - 0.800000, 0.000853),
      (0.199147, 0.199147, - 0.600853, 0.130153),
      (0.069847, 0.069847, - 0.531006, 0.237282),
      (- 0.037282, - 0.037282, - 0.568288, 0.176991),
      (0.023009, 0.023009, - 0.545279, 0.213435),
      (- 0.013435, - 0.013435, - 0.558714, 0.191840),
      (0.008160, 0.008160, - 0.550554, 0.204854),
      (- 0.004854, - 0.004854, - 0.555408, 0.197074),
      (0.002926, 0.002926, - 0.552482, 0.201750),
      (- 0.001750, - 0.001750, - 0.554232, 0.198948),
      (0.001052, 0.001052, - 0.553181, 0.200631),
      (- 0.000631, - 0.000631, - 0.553811, 0.199621),
      (0.000379, 0.000379, - 0.553432, 0.200227),
      (- 0.000227, - 0.000227, - 0.553660, 0.199864)]"

text \<open>
  A run of the simulation cell with one iteration every three seconds: the controller and
  the start time are taken at clock reading 0, the five clock readings of the \<open>k\<close>-th
  iteration are all \<open>3 * k\<close>. The reading 45 of the fifteenth entry ends the \<open>while\<close>
  loop.
\<close>

definition sim_clock_at :: "real \<Rightarrow> sim_clock" where
  "sim_clock_at t = \<lparr>t_while = t, t_pid = t, t_append = t, t_if = t, t_update = t\<rparr>"

definition sim_schedule :: "sim_clock list" where
  "sim_schedule = map (\<lambda>k. sim_clock_at (3 * real k)) [1..<16]"

text \<open>
  The angle after \<open>k\<close> steps from the angle 0, the line printed by step \<open>k + 1\<close>, and
  the state of the run after \<open>k\<close> iterations of the schedule.
\<close>

definition sim_angle :: "nat \<Rightarrow> real" where
  "sim_angle k = (sim_tick ^^ k) 0"

definition sim_line :: "nat \<Rightarrow> real \<times> real \<times> real \<times> real" where
  "sim_line k =
     (0.2 - sim_get_voltage (sim_angle k), 0.2 - sim_get_voltage (sim_angle k),
      sim_angle (Suc k), sim_get_voltage (sim_angle (Suc k)))"

definition sim_after :: "nat \<Rightarrow> sim_state \<Rightarrow> bool" where
  "sim_after k st \<longleftrightarrow>
     Kp (sim_pid st) = 1 \<and> Ki (sim_pid st) = 0 \<and> Kd (sim_pid st) = 0
     \<and> setpoint (sim_pid st) = 0.2 \<and> sample_time (sim_pid st) = Some 3
     \<and> output_limits (sim_pid st) = (None, None) \<and> integral (sim_pid st) = 0
     \<and> last_time (sim_pid st) = 3 * real k \<and> sim_last_update_time st = 3 * real k
     \<and> start_time st = 0 \<and> rotation_mount_angle st = sim_angle k
     \<and> printed st = map sim_line [0..<k]"

section \<open>Sign extension\<close>

lemma and_exp_int: "(v::int) AND 2 ^ n = (if bit v n then 2 ^ n else 0)"
  by (rule bit_eqI) (auto simp add: bit_and_iff bit_exp_iff)

lemma sign_extend_signed_take_bit:
  "0 < bits \<Longrightarrow> sign_extend v bits = Inr (signed_take_bit (nat (bits - 1)) v)"
  apply (simp add: sign_extend_def Let_def push_bit_eq_mult and_exp_int
      signed_take_bit_eq_take_bit_minus
      flip: mask_eq_exp_minus_1 take_bit_eq_mask)
  apply (simp add: take_bit_Suc_from_most)
  done

lemma sign_extend_32_sint: "sign_extend v 32 = Inr (sint (word_of_int v :: 32 word))"
  apply (simp add: sign_extend_signed_take_bit)
  apply transfer
  apply simp
  done

text \<open>
  Claim C4. \<open>sign_extend\<close> reads the low \<open>bits\<close> bits of its argument as a two's
  complement number, for every width of at least one bit and every integer argument, and
  never raises there; at width 32 the result is the signed reading of the 32-bit word,
  over the whole range, and
  \<open>sign_extend(0xFFFFFFFF, 32) = -1\<close>, \<open>sign_extend(0x7FFFFFFF, 32) = 2147483647\<close>,
  \<open>sign_extend(0x80000000, 32) = -2147483648\<close>.
\<close>

theorem sign_extend_twos_complement:
  "(0 < bits \<longrightarrow> sign_extend v bits = Inr (signed_take_bit (nat (bits - 1)) v))
   \<and> sign_extend v 32 = Inr (sint (word_of_int v :: 32 word))
   \<and> sign_extend 0xFFFFFFFF 32 = Inr (- 1)
   \<and> sign_extend 0x7FFFFFFF 32 = Inr 2147483647
   \<and> sign_extend 0x80000000 32 = Inr (- 2147483648)"
proof -
  have "sign_extend 0xFFFFFFFF 32 = Inr (- 1)"
    by (simp add: sign_extend_def)
  moreover have "sign_extend 0x7FFFFFFF 32 = Inr 2147483647"
    by (simp add: sign_extend_def)
  moreover have "sign_extend 0x80000000 32 = Inr (- 2147483648)"
    by (simp add: sign_extend_def)
  ultimately show ?thesis
    using sign_extend_signed_take_bit [of bits v] sign_extend_32_sint [of v] by blast
qed

theorem sign_extend_twos_complement_witness:
  "(0::int) < 32 \<and> sign_extend 0x80000000 32 = Inr (signed_take_bit 31 0x80000000)
   \<and> signed_take_bit 31 (0x80000000::int) = - 2147483648"
  using sign_extend_twos_complement [of 32 "0x80000000"] by simp

section \<open>Angle codec: counts on the wire\<close>

lemma and_ffffffff: "(k::int) AND 0xffffffff = k mod 2 ^ 32"
proof -
  have "k AND mask 32 = k mod 2 ^ 32"
    by (simp add: take_bit_eq_mod flip: take_bit_eq_mask)
  then show ?thesis by (simp add: mask_eq_exp_minus_1)
qed

lemma py_int_close: "\<bar>real_of_int (py_int x) - x\<bar> < 1"
  unfolding py_int_def by (auto; linarith)

lemma py_int_toward_zero: "\<bar>real_of_int (py_int x)\<bar> \<le> \<bar>x\<bar>"
  unfolding py_int_def by (auto; linarith)

lemma angle_to_counts_mod: "angle_to_counts a r = py_int (a / r) mod 2 ^ 32"
  by (simp add: angle_to_counts_def and_ffffffff)

lemma sign_extend_counts:
  "sign_extend (angle_to_counts a r) 32 = Inr (sint (word_of_int (py_int (a / r)) :: 32 word))"
  apply (simp add: sign_extend_32_sint angle_to_counts_mod)
  apply transfer
  apply (simp add: signed_take_bit_eq_iff_take_bit_eq take_bit_eq_mod)
  done

lemma sign_extend_counts_representable:
  assumes "- (2 ^ 31) \<le> py_int (a / r)" "py_int (a / r) < 2 ^ 31"
  shows "sign_extend (angle_to_counts a r) 32 = Inr (py_int (a / r))"
  using assms
  apply (simp add: sign_extend_counts)
  apply transfer
  apply (simp add: signed_take_bit_int_eq_self_iff)
  done

lemma counts_to_angle_close:
  assumes "0 < r"
  shows "\<bar>counts_to_angle (py_int (a / r)) r - a\<bar> < r"
proof -
  have "\<bar>real_of_int (py_int (a / r)) - a / r\<bar> < 1" by (rule py_int_close)
  then have "\<bar>real_of_int (py_int (a / r)) - a / r\<bar> * r < 1 * r"
    using assms by (simp only: mult_strict_right_mono)
  moreover have "\<bar>real_of_int (py_int (a / r)) - a / r\<bar> * r = \<bar>real_of_int (py_int (a / r)) * r - a\<bar>"
  proof -
    have "(real_of_int (py_int (a / r)) - a / r) * r = real_of_int (py_int (a / r)) * r - a"
      using assms by (simp add: left_diff_distrib)
    then have "\<bar>real_of_int (py_int (a / r)) * r - a\<bar> = \<bar>real_of_int (py_int (a / r)) - a / r\<bar> * \<bar>r\<bar>"
      by (simp only: abs_mult [symmetric])
    then show ?thesis using assms by simp
  qed
  ultimately show ?thesis by (simp add: counts_to_angle_def)
qed

lemma counts_to_angle_toward_zero:
  assumes "0 < r"
  shows "\<bar>counts_to_angle (py_int (a / r)) r\<bar> \<le> \<bar>a\<bar>"
proof -
  have "\<bar>real_of_int (py_int (a / r))\<bar> * r \<le> \<bar>a / r\<bar> * r"
    using assms py_int_toward_zero [of "a / r"] by (simp only: mult_right_mono less_imp_le)
  then show ?thesis using assms by (simp add: counts_to_angle_def abs_mult)
qed

text \<open>
  Claim C5, as the spec states it: the count is \<open>round(angle / resolution)\<close> reduced modulo
  \<open>2^32\<close>. The source converts with \<open>int\<close>, which truncates towards zero: for the angle
  0.00003 rad and the resolution of the source the quotient is about 0.68, the source sends
  the count 0 and rounding gives 1.
\<close>

theorem angle_to_counts_round_counterexample:
  "angle_to_counts 0.00003 ENCODER_RESOLUTION = 0
   \<and> round ((0.00003::real) / ENCODER_RESOLUTION) mod 2 ^ 32 = 1"
  by (simp add: angle_to_counts_def ENCODER_RESOLUTION_def py_int_def round_def)

text \<open>
  Claim C5, amended. For every angle and every positive resolution, the count field is the
  quotient \<open>angle / resolution\<close> truncated towards zero (the integer between zero and the
  quotient that is less than one away from it), reduced modulo \<open>2^32\<close>; read back with
  \<open>sign_extend\<close> it is the 32-bit two's complement wrap of the truncated quotient, so values
  out of range wrap and do not saturate.
\<close>

theorem angle_to_counts_truncates:
  "0 < r \<Longrightarrow>
     angle_to_counts a r = py_int (a / r) mod 2 ^ 32
     \<and> sign_extend (angle_to_counts a r) 32 = Inr (sint (word_of_int (py_int (a / r)) :: 32 word))
     \<and> \<bar>real_of_int (py_int (a / r))\<bar> \<le> \<bar>a / r\<bar>
     \<and> \<bar>real_of_int (py_int (a / r)) - a / r\<bar> < 1"
  using angle_to_counts_mod [of a r] sign_extend_counts [of a r]
    py_int_toward_zero [of "a / r"] py_int_close [of "a / r"] by blast

theorem angle_to_counts_truncates_witness:
  "0 < ENCODER_RESOLUTION
   \<and> angle_to_counts (- 0.8) ENCODER_RESOLUTION = py_int (- 0.8 / ENCODER_RESOLUTION) mod 2 ^ 32
   \<and> py_int (- 0.8 / ENCODER_RESOLUTION) = - 18264
   \<and> angle_to_counts (- 0.8) ENCODER_RESOLUTION = 0xFFFFB8A8"
  using angle_to_counts_truncates [of ENCODER_RESOLUTION "- 0.8"]
  by (simp add: ENCODER_RESOLUTION_def py_int_def)

text \<open>
  Claim C6, as the spec states it: the round trip through the count field is within half a
  resolution step of the angle. For 0.00003 rad the round trip gives 0, which is more than
  half a step away.
\<close>

theorem round_trip_half_step_counterexample:
  "sign_extend (angle_to_counts 0.00003 ENCODER_RESOLUTION) 32 = Inr 0
   \<and> \<not> \<bar>counts_to_angle 0 ENCODER_RESOLUTION - 0.00003\<bar> \<le> ENCODER_RESOLUTION / 2"
  by (simp add: angle_to_counts_def ENCODER_RESOLUTION_def py_int_def sign_extend_def
      counts_to_angle_def)

text \<open>
  Claim C6, amended. For every positive resolution \<open>r\<close> and every angle \<open>a\<close> whose count
  fits in 32-bit two's complement, the count field of \<open>a\<close>, sign-extended and multiplied by
  \<open>r\<close> as \<open>get_angle\<close> does, differs from \<open>a\<close> by less than \<open>r\<close>, and is never
  larger in magnitude than \<open>a\<close>.
\<close>

theorem round_trip_within_one_step:
  assumes "0 < r" and "- (2 ^ 31) \<le> py_int (a / r)" and "py_int (a / r) < 2 ^ 31"
  shows "\<exists>c. sign_extend (angle_to_counts a r) 32 = Inr c
           \<and> \<bar>counts_to_angle c r - a\<bar> < r
           \<and> \<bar>counts_to_angle c r\<bar> \<le> \<bar>a\<bar>"
  using sign_extend_counts_representable [OF assms(2,3)]
    counts_to_angle_close [OF assms(1), of a] counts_to_angle_toward_zero [OF assms(1), of a]
  by simp

theorem round_trip_within_one_step_witness:
  "0 < ENCODER_RESOLUTION \<and> - (2 ^ 31) \<le> py_int (- 0.8 / ENCODER_RESOLUTION)
   \<and> py_int (- 0.8 / ENCODER_RESOLUTION) < 2 ^ 31
   \<and> (\<exists>c. sign_extend (angle_to_counts (- 0.8) ENCODER_RESOLUTION) 32 = Inr c
           \<and> \<bar>counts_to_angle c ENCODER_RESOLUTION - (- 0.8)\<bar> < ENCODER_RESOLUTION)"
proof -
  have r: "0 < ENCODER_RESOLUTION" by (simp add: ENCODER_RESOLUTION_def)
  have v: "py_int (- 0.8 / ENCODER_RESOLUTION) = - 18264"
    by (simp add: ENCODER_RESOLUTION_def py_int_def)
  have lo: "- (2 ^ 31) \<le> py_int (- 0.8 / ENCODER_RESOLUTION)" unfolding v by simp
  have hi: "py_int (- 0.8 / ENCODER_RESOLUTION) < 2 ^ 31" unfolding v by simp
  show ?thesis using round_trip_within_one_step [OF r lo hi] r lo hi by blast
qed

section \<open>Command frames\<close>

lemma hex_of_nat_small: "n < 16 \<Longrightarrow> hex_of_nat u n = [hex_digit u n]"
  by (simp add: hex_of_nat.simps)

lemma hex_of_nat_step:
  "16 \<le> n \<Longrightarrow> hex_of_nat u n = hex_of_nat u (n div 16) @ [hex_digit u (n mod 16)]"
  by (subst hex_of_nat.simps) simp

lemma hex_digit_upper: "d < 16 \<Longrightarrow> hex_digit True d \<in> set ''0123456789ABCDEF''"
  unfolding hex_digit_def by (simp only: if_True nth_mem length_Cons list.size)

lemma hex_of_nat_upper: "set (hex_of_nat True n) \<subseteq> set ''0123456789ABCDEF''"
proof (induction True n rule: hex_of_nat.induct)
  case (1 n)
  show ?case
  proof (cases "n < 16")
    case True
    then show ?thesis using hex_digit_upper [of n] by (simp add: hex_of_nat_small)
  next
    case False
    then have "set (hex_of_nat True (n div 16)) \<subseteq> set ''0123456789ABCDEF''"
      using "1" by simp
    moreover have "hex_digit True (n mod 16) \<in> set ''0123456789ABCDEF''"
      by (rule hex_digit_upper) simp
    ultimately show ?thesis using False by (simp add: hex_of_nat_step)
  qed
qed

lemma hex_of_nat_length: "n < 16 ^ k \<Longrightarrow> 0 < k \<Longrightarrow> length (hex_of_nat u n) \<le> k"
proof (induction k arbitrary: n)
  case 0
  then show ?case by simp
next
  case (Suc k)
  show ?case
  proof (cases "n < 16")
    case True
    then show ?thesis by (simp add: hex_of_nat_small)
  next
    case False
    then have k: "0 < k" using Suc.prems by (cases k) auto
    have "n div 16 < 16 ^ k" using Suc.prems by (simp add: less_mult_imp_div_less mult.commute)
    then have "length (hex_of_nat u (n div 16)) \<le> k" using Suc.IH k by simp
    then show ?thesis using False by (simp add: hex_of_nat_step)
  qed
qed

lemma format_hex_field:
  assumes "0 \<le> n" "n < 2 ^ 32"
  shows "length (format_hex True 8 n) = 8 \<and> set (format_hex True 8 n) \<subseteq> set ''0123456789ABCDEF''"
proof -
  have "nat n < 16 ^ 8" using assms by (simp add: nat_less_iff)
  then have len: "length (hex_of_nat True (nat n)) \<le> 8"
    by (rule hex_of_nat_length) simp
  have "set (hex_of_nat True (nat n)) \<subseteq> set ''0123456789ABCDEF''"
    by (rule hex_of_nat_upper)
  then show ?thesis using assms(1) len
    by (auto simp add: format_hex_def Let_def)
qed

lemma angle_to_counts_range: "0 \<le> angle_to_counts a r \<and> angle_to_counts a r < 2 ^ 32"
proof -
  have "angle_to_counts a r = py_int (a / r) mod 2 ^ 32"
  proof -
    have "py_int (a / r) AND mask 32 = py_int (a / r) mod 2 ^ 32"
      by (simp add: take_bit_eq_mod flip: take_bit_eq_mask)
    then show ?thesis by (simp add: angle_to_counts_def mask_eq_exp_minus_1)
  qed
  then show ?thesis by simp
qed

lemma move_to_frame:
  "\<exists>h. written (move_to a s) = written s @ [''0ma'' @ h @ CRLF]
      \<and> length h = 8 \<and> set h \<subseteq> set ''0123456789ABCDEF''"
  using format_hex_field [of "angle_to_counts a ENCODER_RESOLUTION"] angle_to_counts_range [of a ENCODER_RESOLUTION]
  by (simp add: move_to_def Let_def ser_write_def ser_readline_def split: prod.splits list.splits)

lemma move_by_frame:
  "\<exists>h. written (move_by a s) = written s @ [''0mr'' @ h @ CRLF]
      \<and> length h = 8 \<and> set h \<subseteq> set ''0123456789ABCDEF''"
  using format_hex_field [of "angle_to_counts a ENCODER_RESOLUTION"] angle_to_counts_range [of a ENCODER_RESOLUTION]
  by (simp add: move_by_def Let_def ser_write_def ser_readline_def split: prod.splits list.splits)

text \<open>
  The frames of \<open>move_to\<close> and \<open>move_by\<close> carry eight upper-case hexadecimal digits and
  end with \<^verbatim>\<open>\r\n\<close>; the frame of \<open>get_angle\<close> is \<^verbatim>\<open>0gp\r\n\<close>
  (lemma \<open>get_angle_written\<close> below).
\<close>

lemma format_hex_90: "format_hex False 2 90 = ''5a''"
  by (simp add: format_hex_def hex_of_nat_step hex_of_nat_small hex_digit_def)

lemma hex_of_nat_nonempty: "hex_of_nat u n \<noteq> []"
  by (subst hex_of_nat.simps) simp

lemma set_speed_frame:
  "\<exists>h. written (set_speed percent s) = written s @ [''0sv'' @ h]
      \<and> h = format_hex False 2 (py_int (np_clip percent 0 100))
      \<and> length h = 2
      \<and> 0 \<le> py_int (np_clip percent 0 100) \<and> py_int (np_clip percent 0 100) \<le> 100"
proof -
  define n where "n = py_int (np_clip percent 0 100)"
  have r: "0 \<le> n" "n \<le> 100"
    unfolding n_def np_clip_def py_int_def by (auto simp add: le_floor_iff floor_le_iff)
  then have "nat n < 16 ^ 2" by simp
  then have "length (hex_of_nat False (nat n)) \<le> 2"
    by (rule hex_of_nat_length) simp
  then have "length (format_hex False 2 n) = 2"
    using r(1) by (simp add: format_hex_def Let_def)
  then show ?thesis
    using r unfolding n_def
    by (simp add: set_speed_def Let_def ser_write_def ser_readline_def split: prod.splits list.splits)
qed

text \<open>
  Claim C7 says that every transmitted frame, the \<^verbatim>\<open>sv\<close> frame of \<open>set_speed\<close> included,
  ends with \<^verbatim>\<open>\r\n\<close> and carries upper-case hexadecimal digits. \<open>set_speed\<close> does clamp
  the percentage into 0..100 and writes two digits, but it formats with
  \<^verbatim>\<open>b'0sv%02x'\<close>: lower-case digits and no terminator. For 90 percent the bytes written
  are \<^verbatim>\<open>0sv5a\<close>, where the claim asks for \<^verbatim>\<open>0sv5A\r\n\<close>.
\<close>

theorem set_speed_frame_90:
  "written (set_speed 90 s) = written s @ [''0sv5a'']"
  by (simp add: set_speed_def Let_def np_clip_def py_int_def format_hex_90 ser_write_def
      ser_readline_def split: prod.splits list.splits)

section \<open>Reading the position\<close>

lemma bytes_repr_Nil: "bytes_repr [] = [CHR ''b'', CHR 0x27, CHR 0x27]"
  by (simp add: bytes_repr_def Let_def)

lemma slice_5_m5_short: "length s \<le> 10 \<Longrightarrow> slice_5_m5 s = []"
  by (simp add: slice_5_m5_def)

lemma int_base16_0X: "int_base16 ''0X'' = Inl ValueError"
  by (simp add: int_base16_def Let_def is_space_def hex_value_def)

lemma get_angle_written: "written (snd (get_angle s)) = written s @ [''0gp'' @ CRLF]"
  by (simp add: get_angle_def ser_write_def ser_readline_def Let_def
      split: list.splits sum.splits prod.splits)

lemma get_angle_empty_slice:
  assumes "case incoming s of [] \<Rightarrow> True | r # rs \<Rightarrow> length (bytes_repr r) \<le> 10"
  shows "fst (get_angle s) = Inl ValueError"
  using assms
  by (simp add: get_angle_def ser_write_def ser_readline_def bytes_repr_Nil slice_5_m5_short
      int_base16_0X split: list.splits)

lemma pid_call_Some: "\<exists>u. fst (pid_call p x t) = Some u"
  by (auto simp add: pid_call_def Let_def)

lemma loop_body_get_angle_error:
  assumes "fst (get_angle (ser st)) = Inl e" "now - last_update_time st \<ge> update_interval"
  shows "\<exists>st'. loop_body v clock now st = Inl (e, st')
     \<and> written (ser st') = written (ser st) @ [''0gp'' @ CRLF]"
proof -
  obtain r s' where g: "get_angle (ser st) = (r, s')" by (cases "get_angle (ser st)")
  with assms(1) have r: "r = Inl e" by simp
  have w: "written s' = written (ser st) @ [''0gp'' @ CRLF]"
    using get_angle_written [of "ser st"] g by simp
  show ?thesis
    using assms(2) g r w by (simp add: loop_body_def Let_def split: prod.splits)
qed

lemma loop_body_actuates:
  assumes "get_angle (ser st) = (Inr \<theta>, s')" "now - last_update_time st \<ge> update_interval"
  shows "\<exists>u st'. fst (pid_call (pid st) v clock) = Some u \<and> loop_body v clock now st = Inr st'
     \<and> ser st' = move_to (\<theta> + u) s' \<and> last_update_time st' = now"
proof -
  obtain u where u: "fst (pid_call (pid st) v clock) = Some u"
    using pid_call_Some by blast
  then obtain p' where pc: "pid_call (pid st) v clock = (Some u, p')"
    by (cases "pid_call (pid st) v clock") simp
  show ?thesis using assms pc
    by (simp add: loop_body_def Let_def)
qed

lemma get_angle_zero:
  "get_angle \<lparr>written = w, incoming = (''0PO00000000'' @ CRLF) # rs\<rparr>
     = (Inr 0, \<lparr>written = w @ [''0gp'' @ CRLF], incoming = rs\<rparr>)"
  by (simp add: get_angle_def ser_write_def ser_readline_def bytes_repr_def slice_5_m5_def
      CRLF_def repr_byte_def Let_def int_base16_def is_space_def hex_value_def sign_extend_def
      counts_to_angle_def)

text \<open>
  Claim C10, as stated: every response line too short to hold the eight hexadecimal digits
  of the position makes \<open>get_angle\<close> raise. The seven bytes \<^verbatim>\<open>0PO12\r\n\<close> are such a
  line, and \<open>get_angle\<close> returns a value for them: the two digits are read as the count 18.
\<close>

theorem get_angle_short_line_counterexample:
  "length (''0PO12'' @ CRLF) < 8
   \<and> fst (get_angle \<lparr>written = [], incoming = [''0PO12'' @ CRLF]\<rparr>) = Inr (18 * ENCODER_RESOLUTION)"
  by code_simp

text \<open>
  Claim C10, amended. When the text that \<open>get_angle\<close> cuts out of the response is empty,
  that is when \<open>str(response)\<close> has at most ten characters, as for the empty line that
  \<open>readline\<close> returns after a timeout, \<open>get_angle\<close> raises ValueError; in an iteration
  of the control loop that is due to move the mount the exception leaves the loop body,
  nothing catches it, and the loop ends there whatever inputs would follow.
\<close>

theorem empty_position_field_ends_loop:
  assumes "case incoming (ser st) of [] \<Rightarrow> True | r # rs \<Rightarrow> length (bytes_repr r) \<le> 10"
    and "now - last_update_time st \<ge> update_interval"
  shows "fst (get_angle (ser st)) = Inl ValueError
     \<and> (\<exists>st'. loop_body v clock now st = Inl (ValueError, st')
            \<and> control_loop st ((v, clock, now) # rest) = Inl (ValueError, st'))"
proof -
  have g: "fst (get_angle (ser st)) = Inl ValueError"
    using assms(1) by (rule get_angle_empty_slice)
  obtain st' where "loop_body v clock now st = Inl (ValueError, st')"
    using loop_body_get_angle_error [OF g assms(2)] by blast
  then show ?thesis using g by simp
qed

theorem empty_position_field_ends_loop_witness:
  "(case incoming (ser (loop_init 0 0 \<lparr>written = [], incoming = []\<rparr>)) of
      [] \<Rightarrow> True | r # rs \<Rightarrow> length (bytes_repr r) \<le> 10)
   \<and> 5 - last_update_time (loop_init 0 0 \<lparr>written = [], incoming = []\<rparr>) \<ge> update_interval
   \<and> fst (get_angle (ser (loop_init 0 0 \<lparr>written = [], incoming = []\<rparr>))) = Inl ValueError
   \<and> isl (control_loop (loop_init 0 0 \<lparr>written = [], incoming = []\<rparr>) [(1, 5, 5), (1, 10, 10)])"
proof -
  let ?st = "loop_init 0 0 \<lparr>written = [], incoming = []\<rparr>"
  have a: "case incoming (ser ?st) of [] \<Rightarrow> True | r # rs \<Rightarrow> length (bytes_repr r) \<le> 10"
    by (simp add: loop_init_def)
  have b: "5 - last_update_time ?st \<ge> update_interval"
    by (simp add: loop_init_def update_interval_def)
  show ?thesis
    using empty_position_field_ends_loop [OF a b, of 1 5 "[(1, 10, 10)]"] a b by auto
qed

text \<open>
  Claim C8, as stated: after a read timeout the cycle is skipped and the loop goes on with
  the next sample. With a silent device the first iteration that is due to move the mount
  ends the loop with ValueError; the second iteration is never run.
\<close>

theorem gp_timeout_counterexample:
  "isl (control_loop (loop_init 0 0 \<lparr>written = [], incoming = []\<rparr>) [(1, 5, 5), (1, 10, 10)])
   \<and> fst (projl (control_loop (loop_init 0 0 \<lparr>written = [], incoming = []\<rparr>)
                    [(1, 5, 5), (1, 10, 10)])) = ValueError
   \<and> written (ser (snd (projl (control_loop (loop_init 0 0 \<lparr>written = [], incoming = []\<rparr>)
                    [(1, 5, 5), (1, 10, 10)])))) = [''0gp'' @ CRLF]"
proof -
  let ?st = "loop_init 0 0 \<lparr>written = [], incoming = []\<rparr>"
  have "fst (get_angle (ser ?st)) = Inl ValueError"
    by (rule get_angle_empty_slice) (simp add: loop_init_def)
  moreover have "5 - last_update_time ?st \<ge> update_interval"
    by (simp add: loop_init_def update_interval_def)
  ultimately obtain st' where "loop_body 1 5 5 ?st = Inl (ValueError, st')"
    and "written (ser st') = written (ser ?st) @ [''0gp'' @ CRLF]"
    using loop_body_get_angle_error by blast
  then show ?thesis by (simp add: loop_init_def)
qed

text \<open>
  Claim C8, amended. When the read of \<open>get_angle\<close> times out, the cycle writes no move
  command (only the \<^verbatim>\<open>gp\<close> query), and ValueError ends the loop: the fault is not
  recovered. When \<open>get_angle\<close> succeeds and the read of \<open>move_to\<close> times out, the empty
  response is dropped like any other, the cycle completes and the loop goes on with the
  next sample.
\<close>

theorem timeout_in_control_loop:
  "(incoming (ser st) = [] \<and> now - last_update_time st \<ge> update_interval \<longrightarrow>
      (\<exists>st'. loop_body v clock now st = Inl (ValueError, st')
          \<and> written (ser st') = written (ser st) @ [''0gp'' @ CRLF]
          \<and> control_loop st ((v, clock, now) # rest) = Inl (ValueError, st')))
   \<and> (get_angle (ser st) = (Inr \<theta>, s') \<and> incoming s' = []
        \<and> now - last_update_time st \<ge> update_interval \<longrightarrow>
      (\<exists>st'. loop_body v clock now st = Inr st'
          \<and> last_update_time st' = now
          \<and> control_loop st ((v, clock, now) # rest) = control_loop st' rest))"
proof (intro conjI impI)
  assume a: "incoming (ser st) = [] \<and> now - last_update_time st \<ge> update_interval"
  then have "fst (get_angle (ser st)) = Inl ValueError"
    by (intro get_angle_empty_slice) simp
  then obtain st' where "loop_body v clock now st = Inl (ValueError, st')"
    and "written (ser st') = written (ser st) @ [''0gp'' @ CRLF]"
    using loop_body_get_angle_error a by blast
  then show "\<exists>st'. loop_body v clock now st = Inl (ValueError, st')
          \<and> written (ser st') = written (ser st) @ [''0gp'' @ CRLF]
          \<and> control_loop st ((v, clock, now) # rest) = Inl (ValueError, st')"
    by simp
next
  assume b: "get_angle (ser st) = (Inr \<theta>, s') \<and> incoming s' = []
        \<and> now - last_update_time st \<ge> update_interval"
  then obtain st' where "loop_body v clock now st = Inr st'" and "last_update_time st' = now"
    using loop_body_actuates [of st \<theta> s' now v clock] by blast
  then show "\<exists>st'. loop_body v clock now st = Inr st'
          \<and> last_update_time st' = now
          \<and> control_loop st ((v, clock, now) # rest) = control_loop st' rest"
    by simp
qed

theorem timeout_in_control_loop_witness:
  "incoming (ser (loop_init 0 0 \<lparr>written = [], incoming = []\<rparr>)) = []
   \<and> 5 - last_update_time (loop_init 0 0 \<lparr>written = [], incoming = []\<rparr>) \<ge> update_interval
   \<and> isl (control_loop (loop_init 0 0 \<lparr>written = [], incoming = []\<rparr>) [(1, 5, 5), (1, 10, 10)])
   \<and> get_angle (ser (loop_init 0 0 \<lparr>written = [], incoming = [''0PO00000000'' @ CRLF]\<rparr>))
       = (Inr 0, \<lparr>written = [''0gp'' @ CRLF], incoming = []\<rparr>)
   \<and> incoming \<lparr>written = [''0gp'' @ CRLF], incoming = []\<rparr> = []
   \<and> \<not> isl (loop_body 1 5 5 (loop_init 0 0 \<lparr>written = [], incoming = [''0PO00000000'' @ CRLF]\<rparr>))"
proof -
  let ?s1 = "loop_init 0 0 \<lparr>written = [], incoming = []\<rparr>"
  let ?s2 = "loop_init 0 0 \<lparr>written = [], incoming = [''0PO00000000'' @ CRLF]\<rparr>"
  have a1: "incoming (ser ?s1) = []" by (simp add: loop_init_def)
  have a2: "5 - last_update_time ?s1 \<ge> update_interval"
    by (simp add: loop_init_def update_interval_def)
  have b1: "get_angle (ser ?s2) = (Inr 0, \<lparr>written = [''0gp'' @ CRLF], incoming = []\<rparr>)"
    using get_angle_zero [of "[]" "[]"] by (simp add: loop_init_def)
  have b2: "5 - last_update_time ?s2 \<ge> update_interval"
    by (simp add: loop_init_def update_interval_def)
  have "\<exists>st'. control_loop ?s1 [(1, 5, 5), (1, 10, 10)] = Inl (ValueError, st')"
    using timeout_in_control_loop [where st = ?s1 and now = 5 and v = 1 and clock = 5
        and rest = "[(1, 10, 10)]"] a1 a2 by blast
  moreover have "\<exists>st'. loop_body 1 5 5 ?s2 = Inr st'"
    using timeout_in_control_loop [where st = ?s2 and now = 5 and v = 1 and clock = 5
        and \<theta> = 0 and s' = "\<lparr>written = [''0gp'' @ CRLF], incoming = []\<rparr>"]
      b1 b2 by auto
  ultimately show ?thesis using a1 a2 b1 by auto
qed

section \<open>Negative corrections\<close>

lemma format_hex_FFFFB8A8: "format_hex True 8 0xFFFFB8A8 = ''FFFFB8A8''"
  by (simp add: format_hex_def hex_of_nat_step hex_of_nat_small hex_digit_def)

text \<open>
  Claim C2 asks that a negative correction \<open>\<delta>\<close> at the angle \<open>\<theta>\<close> be sent as the absolute
  target \<open>(\<theta> + \<delta>) mod full_turn\<close>, a non-negative forward rotation. The loop calls
  \<open>move_to(rotation_mount_angle + control)\<close> and never reduces the sum modulo a full turn.
  With the mount at its home position (\<open>\<theta> = 0\<close>) and the measured voltage 1.0 the
  correction is -0.8; the frame written is \<^verbatim>\<open>0maFFFFB8A8\r\n\<close>, the count -18264: a
  negative absolute angle, which by the comment on \<open>move_to\<close> is a no-op.
\<close>

theorem negative_target_sent_unwrapped:
  "written (ser (projr (loop_body 1 5 5
      (loop_init 0 0 \<lparr>written = [], incoming = [''0PO00000000'' @ CRLF]\<rparr>))))
     = [''0gp'' @ CRLF, ''0maFFFFB8A8'' @ CRLF]
   \<and> sign_extend 0xFFFFB8A8 32 = Inr (- 18264)"
proof -
  have "angle_to_counts (- 0.8) ENCODER_RESOLUTION = 0xFFFFB8A8"
    by (simp add: angle_to_counts_def ENCODER_RESOLUTION_def py_int_def)
  then have m: "written (move_to (- 0.8) \<lparr>written = [''0gp'' @ CRLF], incoming = []\<rparr>)
     = [''0gp'' @ CRLF, ''0maFFFFB8A8'' @ CRLF]"
    by (simp add: move_to_def Let_def format_hex_FFFFB8A8 ser_write_def ser_readline_def)
  have p: "fst (pid_call (PID_init k_p k_i k_d target_voltage (Some update_interval) 0) 1 5) = Some (- 0.8)"
    by (simp add: pid_call_def PID_init_def Let_def clamp_def k_p_def k_i_def k_d_def
        target_voltage_def update_interval_def)
  have "sign_extend 0xFFFFB8A8 32 = Inr (- 18264)"
    by (simp add: sign_extend_def)
  moreover have "written (ser (projr (loop_body 1 5 5
      (loop_init 0 0 \<lparr>written = [], incoming = [''0PO00000000'' @ CRLF]\<rparr>))))
     = [''0gp'' @ CRLF, ''0maFFFFB8A8'' @ CRLF]"
  proof -
    obtain p' where pc:
      "pid_call (PID_init k_p k_i k_d target_voltage (Some update_interval) 0) 1 5 = (Some (- 0.8), p')"
      using p by (cases "pid_call (PID_init k_p k_i k_d target_voltage (Some update_interval) 0) 1 5") simp
    show ?thesis
      using m get_angle_zero [of "[]" "[]"]
      by (simp add: loop_body_def loop_init_def Let_def pc) (simp add: update_interval_def)
  qed
  ultimately show ?thesis by simp
qed

section \<open>The cosine between fixed-point bounds\<close>

lemma cos_taylor_bound:
  "\<bar>cos x - (\<Sum>m<n. cos_coeff m * x ^ m)\<bar> \<le> \<bar>x\<bar> ^ n / fact n"
proof -
  obtain t where "cos x = (\<Sum>m<n. cos_coeff m * x ^ m) + (cos (t + 1/2 * real n * pi) / fact n) * x ^ n"
    using Maclaurin_cos_expansion [of x n] by blast
  then have "\<bar>cos x - (\<Sum>m<n. cos_coeff m * x ^ m)\<bar> = \<bar>cos (t + 1/2 * real n * pi)\<bar> * (\<bar>x\<bar> ^ n / fact n)"
    by (simp add: abs_mult power_abs)
  also have "\<dots> \<le> 1 * (\<bar>x\<bar> ^ n / fact n)"
    by (rule mult_right_mono) (simp_all add: abs_cos_le_one)
  finally show ?thesis by simp
qed

lemma cos_horner_numeral:
  "cos_horner (numeral n) j y = 1 - y / (real (2 * j + 1) * real (2 * j + 2)) * cos_horner (pred_numeral n) (Suc j) y"
  by (simp add: numeral_eq_Suc)

lemma cos_horner_sum:
  "cos_horner d j y = (\<Sum>k<Suc d. (- 1) ^ k * y ^ k * fact (2 * j) / fact (2 * (j + k)))"
proof (induction d arbitrary: j)
  case 0
  show ?case by simp
next
  case (Suc d)
  define c :: real where "c = real (2 * j + 1) * real (2 * j + 2)"
  have c: "c \<noteq> 0" by (simp add: c_def)
  have f: "fact (2 * Suc j) = c * fact (2 * j)"
    by (simp add: c_def algebra_simps)
  have t: "y / c * ((- 1) ^ k * y ^ k * (c * fact (2 * j)) / fact (2 * (Suc j + k)))
      = - ((- 1) ^ Suc k * y ^ Suc k * fact (2 * j) / fact (2 * (j + Suc k)))" for k
    using c by (simp del: fact_Suc)
  have "cos_horner (Suc d) j y
      = 1 - y / c * (\<Sum>k<Suc d. (- 1) ^ k * y ^ k * fact (2 * Suc j) / fact (2 * (Suc j + k)))"
    by (simp only: cos_horner.simps Suc.IH c_def)
  also have "\<dots> = 1 - (\<Sum>k<Suc d. y / c * ((- 1) ^ k * y ^ k * (c * fact (2 * j)) / fact (2 * (Suc j + k))))"
    by (simp only: f sum_distrib_left)
  also have "\<dots> = 1 + (\<Sum>k<Suc d. (- 1) ^ Suc k * y ^ Suc k * fact (2 * j) / fact (2 * (j + Suc k)))"
    by (simp only: t sum_negf)
  also have "\<dots> = (\<Sum>k<Suc (Suc d). (- 1) ^ k * y ^ k * fact (2 * j) / fact (2 * (j + k)))"
    by (subst (2) sum.lessThan_Suc_shift) (simp del: sum.lessThan_Suc fact_Suc)
  finally show ?case .
qed

lemma cos_coeff_sum_even:
  "(\<Sum>m<2 * n. cos_coeff m * x ^ m) = (\<Sum>k<n. (- 1) ^ k * (x\<^sup>2) ^ k / fact (2 * k))"
proof (induction n)
  case 0
  show ?case by simp
next
  case (Suc n)
  have "(\<Sum>m<2 * Suc n. cos_coeff m * x ^ m)
       = (\<Sum>m<2 * n. cos_coeff m * x ^ m) + cos_coeff (2 * n) * x ^ (2 * n) + cos_coeff (Suc (2 * n)) * x ^ Suc (2 * n)"
    by simp
  also have "cos_coeff (2 * n) = (- 1) ^ n / fact (2 * n)"
    by (simp add: cos_coeff_def)
  also have "cos_coeff (Suc (2 * n)) = 0"
    by (simp add: cos_coeff_def)
  finally show ?case using Suc.IH by (simp add: power_mult)
qed

lemma cos_horner_bound:
  "\<bar>cos x - cos_horner d 0 (x\<^sup>2)\<bar> \<le> \<bar>x\<bar> ^ (2 * Suc d) / fact (2 * Suc d)"
proof -
  have "cos_horner d 0 (x\<^sup>2) = (\<Sum>m<2 * Suc d. cos_coeff m * x ^ m)"
    unfolding cos_horner_sum cos_coeff_sum_even by simp
  then show ?thesis using cos_taylor_bound [of x "2 * Suc d"] by simp
qed

lemma cos_iv_numeral:
  "cos_iv (numeral n) j Yl Yu =
     (case cos_iv (pred_numeral n) (Suc j) Yl Yu of
        None \<Rightarrow> None
      | Some (L, U) \<Rightarrow>
          if L < 0 then None
          else Some (fx - ((Yu * U) div (int ((2 * j + 1) * (2 * j + 2)) * fx) + 1),
                     fx - (Yl * L) div (int ((2 * j + 1) * (2 * j + 2)) * fx)))"
  by (simp add: numeral_eq_Suc)

lemma fx_pos: "0 < fx" by (simp add: fx_def)

lemma div_le_real: "0 < b \<Longrightarrow> real_of_int (a div b) \<le> real_of_int a / real_of_int b"
  by (metis floor_divide_of_int_eq of_int_floor_le)

lemma div_gt_real: "0 < b \<Longrightarrow> real_of_int a / real_of_int b < real_of_int (a div b) + 1"
  by (metis floor_divide_of_int_eq real_of_int_floor_add_one_gt)

lemma cos_iv_sound:
  assumes "0 \<le> Yl" "real_of_int Yl / real_of_int fx \<le> y" "y \<le> real_of_int Yu / real_of_int fx"
  shows "cos_iv d j Yl Yu = Some (L, U) \<Longrightarrow>
     real_of_int L / real_of_int fx \<le> cos_horner d j y \<and> cos_horner d j y \<le> real_of_int U / real_of_int fx"
proof (induction d arbitrary: j L U)
  case 0
  then show ?case using fx_pos by simp
next
  case (Suc d)
  define c :: int where "c = int ((2 * j + 1) * (2 * j + 2))"
  have "0 < (2 * j + 1) * (2 * j + 2)" by simp
  then have c: "0 < c" unfolding c_def by (simp only: of_nat_0_less_iff)
  have cr: "real (2 * j + 1) * real (2 * j + 2) = real_of_int c"
    unfolding c_def by (simp only: of_int_of_nat_eq of_nat_mult of_int_mult)
  from Suc.prems obtain L' U' where
    r: "cos_iv d (Suc j) Yl Yu = Some (L', U')" and L': "0 \<le> L'"
    and L: "L = fx - ((Yu * U') div (c * fx) + 1)" and U: "U = fx - (Yl * L') div (c * fx)"
    by (auto simp add: c_def split: option.splits if_splits)
  define h where "h = cos_horner d (Suc j) y"
  have h: "real_of_int L' / real_of_int fx \<le> h" "h \<le> real_of_int U' / real_of_int fx"
    using Suc.IH [OF r] by (simp_all add: h_def)
  have F: "0 < real_of_int fx" using fx_pos by simp
  have C: "0 < real_of_int c" using c by simp
  have y0: "0 \<le> real_of_int Yl / real_of_int fx" using assms(1) F by simp
  have h0: "0 \<le> real_of_int L' / real_of_int fx" using L' F by simp
  have up: "y * h \<le> (real_of_int Yu / real_of_int fx) * (real_of_int U' / real_of_int fx)"
    by (rule mult_mono) (use assms h y0 h0 in linarith)+
  have lo: "(real_of_int Yl / real_of_int fx) * (real_of_int L' / real_of_int fx) \<le> y * h"
    by (rule mult_mono) (use assms h y0 h0 in linarith)+
  have "cos_horner (Suc d) j y = 1 - y / real_of_int c * h"
    unfolding h_def by (simp only: cos_horner.simps cr)
  then have e: "cos_horner (Suc d) j y = 1 - y * h / real_of_int c"
    by simp
  have cf: "0 < c * fx" using c fx_pos by simp
  have FC: "0 \<le> real_of_int fx / real_of_int c" using F C by simp
  have "real_of_int fx * (y * h / real_of_int c) = (y * h) * (real_of_int fx / real_of_int c)"
    by simp
  also have "\<dots> \<le> ((real_of_int Yu / real_of_int fx) * (real_of_int U' / real_of_int fx))
      * (real_of_int fx / real_of_int c)"
    using up FC by (rule mult_right_mono)
  also have "\<dots> = real_of_int (Yu * U') / real_of_int (c * fx)"
    using F C by (simp add: field_simps)
  also have "\<dots> < real_of_int ((Yu * U') div (c * fx)) + 1"
    using cf by (rule div_gt_real)
  finally have A: "real_of_int L \<le> real_of_int fx * cos_horner (Suc d) j y"
    unfolding e L by (simp add: algebra_simps)
  have "real_of_int ((Yl * L') div (c * fx)) \<le> real_of_int (Yl * L') / real_of_int (c * fx)"
    using cf by (rule div_le_real)
  also have "\<dots> = ((real_of_int Yl / real_of_int fx) * (real_of_int L' / real_of_int fx))
      * (real_of_int fx / real_of_int c)"
    using F C by (simp add: field_simps)
  also have "\<dots> \<le> (y * h) * (real_of_int fx / real_of_int c)"
    using lo FC by (rule mult_right_mono)
  also have "\<dots> = real_of_int fx * (y * h / real_of_int c)"
    by simp
  finally have B: "real_of_int fx * cos_horner (Suc d) j y \<le> real_of_int U"
    unfolding e U by (simp add: algebra_simps)
  show ?case using A B F by (simp add: field_simps)
qed

lemma cos_bounds_sound:
  assumes "0 \<le> P" "P \<le> 2 * fx" "cos_bounds P = Some (L, U)"
  shows "real_of_int L / real_of_int fx \<le> cos (real_of_int P / real_of_int fx)
     \<and> cos (real_of_int P / real_of_int fx) \<le> real_of_int U / real_of_int fx"
proof -
  define p where "p = real_of_int P / real_of_int fx"
  have F: "0 < real_of_int fx" using fx_pos by simp
  from assms(3) obtain L' U' where
    r: "cos_iv 11 0 (P * P div fx) (P * P div fx + 1) = Some (L', U')"
    and L: "L = L' - 1" and U: "U = U' + 1"
    by (auto simp add: cos_bounds_def split: option.splits)
  have y: "p\<^sup>2 = real_of_int (P * P) / real_of_int fx / real_of_int fx"
    by (simp add: p_def power2_eq_square)
  have "real_of_int (P * P div fx) \<le> real_of_int (P * P) / real_of_int fx"
    using fx_pos by (rule div_le_real)
  then have "real_of_int (P * P div fx) / real_of_int fx
      \<le> real_of_int (P * P) / real_of_int fx / real_of_int fx"
    using F by (intro divide_right_mono) simp_all
  then have y1: "real_of_int (P * P div fx) / real_of_int fx \<le> p\<^sup>2"
    by (simp only: y)
  have "real_of_int (P * P) / real_of_int fx < real_of_int (P * P div fx) + 1"
    using fx_pos by (rule div_gt_real)
  then have "real_of_int (P * P) / real_of_int fx \<le> real_of_int (P * P div fx + 1)"
    by simp
  then have "real_of_int (P * P) / real_of_int fx / real_of_int fx
      \<le> real_of_int (P * P div fx + 1) / real_of_int fx"
    using F by (intro divide_right_mono) simp_all
  then have y2: "p\<^sup>2 \<le> real_of_int (P * P div fx + 1) / real_of_int fx"
    by (simp only: y)
  have y0: "0 \<le> P * P div fx"
    using fx_pos by (simp add: pos_imp_zdiv_nonneg_iff)
  have hb: "real_of_int L' / real_of_int fx \<le> cos_horner 11 0 (p\<^sup>2)"
        "cos_horner 11 0 (p\<^sup>2) \<le> real_of_int U' / real_of_int fx"
    using cos_iv_sound [OF y0 y1 y2 r] by simp_all
  have p0: "0 \<le> p" using assms(1) F by (simp add: p_def)
  have p2: "p \<le> 2" using assms(2) F by (simp add: p_def field_simps)
  have "\<bar>cos p - cos_horner 11 0 (p\<^sup>2)\<bar> \<le> \<bar>p\<bar> ^ (2 * Suc 11) / fact (2 * Suc 11)"
    by (rule cos_horner_bound)
  also have "\<dots> \<le> 2 ^ 24 / fact 24"
  proof -
    have "\<bar>p\<bar> ^ 24 \<le> 2 ^ 24" using p0 p2 by (intro power_mono) simp_all
    then show ?thesis by (simp add: divide_right_mono)
  qed
  also have "\<dots> \<le> 1 / real_of_int fx"
    by (simp add: fx_def fact_numeral)
  finally have T: "\<bar>cos p - cos_horner 11 0 (p\<^sup>2)\<bar> \<le> 1 / real_of_int fx" .
  have "real_of_int L / real_of_int fx = real_of_int L' / real_of_int fx - 1 / real_of_int fx"
    unfolding L by (simp add: diff_divide_distrib)
  moreover have "real_of_int U / real_of_int fx = real_of_int U' / real_of_int fx + 1 / real_of_int fx"
    unfolding U by (simp add: add_divide_distrib)
  ultimately show ?thesis using hb T unfolding p_def [symmetric] by linarith
qed

lemma square_div_bounds:
  "real_of_int (c * c div fx) / real_of_int fx \<le> (real_of_int c / real_of_int fx)\<^sup>2"
  "(real_of_int c / real_of_int fx)\<^sup>2 \<le> real_of_int (c * c div fx + 1) / real_of_int fx"
proof -
  have F: "0 < real_of_int fx" using fx_pos by simp
  have e: "(real_of_int c / real_of_int fx)\<^sup>2 = real_of_int (c * c) / real_of_int fx / real_of_int fx"
    by (simp add: power2_eq_square)
  have "real_of_int (c * c div fx) \<le> real_of_int (c * c) / real_of_int fx"
    using fx_pos by (rule div_le_real)
  then have "real_of_int (c * c div fx) / real_of_int fx
      \<le> real_of_int (c * c) / real_of_int fx / real_of_int fx"
    using F by (intro divide_right_mono) simp_all
  then show "real_of_int (c * c div fx) / real_of_int fx \<le> (real_of_int c / real_of_int fx)\<^sup>2"
    by (simp only: e)
  have "real_of_int (c * c) / real_of_int fx < real_of_int (c * c div fx) + 1"
    using fx_pos by (rule div_gt_real)
  then have "real_of_int (c * c) / real_of_int fx \<le> real_of_int (c * c div fx + 1)"
    by simp
  then have "real_of_int (c * c) / real_of_int fx / real_of_int fx
      \<le> real_of_int (c * c div fx + 1) / real_of_int fx"
    using F by (intro divide_right_mono) simp_all
  then show "(real_of_int c / real_of_int fx)\<^sup>2 \<le> real_of_int (c * c div fx + 1) / real_of_int fx"
    by (simp only: e)
qed

lemma volt_iv_sound:
  assumes a: "real_of_int Al / real_of_int fx \<le> a" "a \<le> real_of_int Au / real_of_int fx"
    and v: "volt_iv (Al, Au) = Some (vl, vu)"
  shows "real_of_int vl / real_of_int fx \<le> sim_get_voltage a
     \<and> sim_get_voltage a \<le> real_of_int vu / real_of_int fx"
proof -
  have F: "0 < real_of_int fx" using fx_pos by simp
  have r: "Au \<le> 0" "- fx \<le> Al"
    using v by (simp_all add: volt_iv_def split: if_splits)
  define x where "x = - (a * 2)"
  have cx: "sim_get_voltage a = (cos x)\<^sup>2"
    by (simp add: sim_get_voltage_def x_def)
  have x1: "real_of_int (- 2 * Au) / real_of_int fx \<le> x"
    using a(2) F by (simp add: x_def field_simps)
  have x2: "x \<le> real_of_int (- 2 * Al) / real_of_int fx"
    using a(1) F by (simp add: x_def field_simps)
  have p2: "0 \<le> - 2 * Au" using r(1) by simp
  have "Al \<le> Au"
  proof -
    have "real_of_int Al / real_of_int fx \<le> real_of_int Au / real_of_int fx" using a by linarith
    then show ?thesis using F by (simp add: divide_le_cancel)
  qed
  then have p1: "0 \<le> - 2 * Al" "- 2 * Al \<le> 2 * fx" "- 2 * Au \<le> 2 * fx"
    using r by simp_all
  have q2: "0 \<le> real_of_int (- 2 * Au) / real_of_int fx"
    using p2 F by (simp del: of_int_mult of_int_minus)
  have q1: "real_of_int (- 2 * Al) / real_of_int fx \<le> pi"
  proof -
    have "real_of_int (- 2 * Al) \<le> real_of_int (2 * fx)" using p1(2) by (simp only: of_int_le_iff)
    then have "real_of_int (- 2 * Al) / real_of_int fx \<le> 2" using F by (simp add: field_simps)
    then show ?thesis using pi_ge_two by linarith
  qed
  from v obtain cl cl' cu' cu where
    b1: "cos_bounds (- 2 * Al) = Some (cl, cl')" and b2: "cos_bounds (- 2 * Au) = Some (cu', cu)"
    by (auto simp add: volt_iv_def split: option.splits prod.splits if_splits)
  have lo: "real_of_int cl / real_of_int fx \<le> cos x"
  proof -
    have "real_of_int cl / real_of_int fx \<le> cos (real_of_int (- 2 * Al) / real_of_int fx)"
      using cos_bounds_sound [OF p1(1) p1(2) b1] by simp
    also have "\<dots> \<le> cos x"
      by (rule cos_monotone_0_pi_le) (use x1 x2 q1 q2 in linarith)+
    finally show ?thesis .
  qed
  have hi: "cos x \<le> real_of_int cu / real_of_int fx"
  proof -
    have "cos x \<le> cos (real_of_int (- 2 * Au) / real_of_int fx)"
      by (rule cos_monotone_0_pi_le) (use x1 x2 q1 q2 in linarith)+
    also have "\<dots> \<le> real_of_int cu / real_of_int fx"
      using cos_bounds_sound [OF p2 p1(3) b2] by simp
    finally show ?thesis .
  qed
  show ?thesis
  proof (cases "0 \<le> cl")
    case True
    then have vv: "vl = cl * cl div fx" "vu = cu * cu div fx + 1"
      using v b1 b2 r by (simp_all add: volt_iv_def)
    have c0: "0 \<le> real_of_int cl / real_of_int fx" using True F by simp
    have "(real_of_int cl / real_of_int fx)\<^sup>2 \<le> (cos x)\<^sup>2"
      using lo c0 by (rule power_mono)
    moreover have "(cos x)\<^sup>2 \<le> (real_of_int cu / real_of_int fx)\<^sup>2"
      by (rule power_mono) (use c0 lo hi in linarith)+
    ultimately show ?thesis
      unfolding cx vv using square_div_bounds(1) [of cl] square_div_bounds(2) [of cu] by linarith
  next
    case False
    then have cu: "cu \<le> 0" and vv: "vl = cu * cu div fx" "vu = cl * cl div fx + 1"
      using v b1 b2 r by (simp_all add: volt_iv_def split: if_splits)
    have c0: "real_of_int cu / real_of_int fx \<le> 0" using cu F by (simp add: divide_le_0_iff)
    have "(- (real_of_int cu / real_of_int fx))\<^sup>2 \<le> (- cos x)\<^sup>2"
      by (rule power_mono) (use c0 lo hi in linarith)+
    moreover have "(- cos x)\<^sup>2 \<le> (- (real_of_int cl / real_of_int fx))\<^sup>2"
      by (rule power_mono) (use c0 lo hi in linarith)+
    ultimately show ?thesis
      unfolding cx vv using square_div_bounds(1) [of cu] square_div_bounds(2) [of cl] by simp
  qed
qed

lemma trace_iv_numeral:
  "trace_iv (numeral n) I =
     (case volt_iv I of
        None \<Rightarrow> None
      | Some V \<Rightarrow>
          (case trace_iv (pred_numeral n) (fst I + fx div 5 - snd V, snd I + fx div 5 - fst V) of
             None \<Rightarrow> None
           | Some r \<Rightarrow> Some ((I, V) # r)))"
  by (simp add: numeral_eq_Suc)

lemma trace_iv_sound:
  "trace_iv n I = Some r \<Longrightarrow> in_iv I a \<Longrightarrow> i < n \<Longrightarrow>
     in_iv (fst (r ! i)) ((sim_tick ^^ i) a) \<and> in_iv (snd (r ! i)) (sim_get_voltage ((sim_tick ^^ i) a))"
proof (induction n arbitrary: I r a i)
  case 0
  then show ?case by simp
next
  case (Suc n)
  from Suc.prems(1) obtain V r' where
    V: "volt_iv I = Some V"
    and r': "trace_iv n (fst I + fx div 5 - snd V, snd I + fx div 5 - fst V) = Some r'"
    and r: "r = (I, V) # r'"
    by (auto split: option.splits)
  have va: "in_iv V (sim_get_voltage a)"
    using volt_iv_sound [of "fst I" a "snd I" "fst V" "snd V"] Suc.prems(2) V
    by (simp add: in_iv_def)
  show ?case
  proof (cases i)
    case 0
    then show ?thesis using r va Suc.prems(2) by simp
  next
    case (Suc k)
    have F: "0 < real_of_int fx" using fx_pos by simp
    have f5: "real_of_int (fx div 5) / real_of_int fx = 0.2"
      by (simp add: fx_def)
    have "in_iv (fst I + fx div 5 - snd V, snd I + fx div 5 - fst V) (sim_tick a)"
      using va Suc.prems(2) f5
      by (simp add: in_iv_def sim_tick_def add_divide_distrib diff_divide_distrib)
    then have "in_iv (fst (r' ! k)) ((sim_tick ^^ k) (sim_tick a))
       \<and> in_iv (snd (r' ! k)) (sim_get_voltage ((sim_tick ^^ k) (sim_tick a)))"
      using Suc.IH [OF r'] Suc.prems(3) Suc by simp
    then show ?thesis using r Suc by (simp add: funpow_swap1)
  qed
qed

section \<open>The controller: gating and output\<close>

lemma pid_call_gated:
  assumes "sample_time p = Some st" "last_output p = Some u"
    and "(if now - last_time p \<noteq> 0 then now - last_time p else 1 / 10 ^ 16) < st"
  shows "pid_call p x now = (Some u, p)"
  using assms by (simp add: pid_call_def Let_def)

lemma pid_call_computes:
  assumes "last_output p = None \<or> (\<forall>st. sample_time p = Some st \<longrightarrow>
      st \<le> (if now - last_time p \<noteq> 0 then now - last_time p else 1 / 10 ^ 16))"
  shows "pid_call p x now =
     (let dt = (if now - last_time p \<noteq> 0 then now - last_time p else 1 / 10 ^ 16);
          error = setpoint p - x;
          d_input = x - (case last_input p of Some li \<Rightarrow> li | None \<Rightarrow> x);
          prop = Kp p * error;
          integ = clamp (integral p + Ki p * error * dt) (output_limits p);
          deriv = - Kd p * d_input / dt;
          output = clamp (prop + integ + deriv) (output_limits p)
      in (Some output,
          p\<lparr>proportional := prop, integral := integ, derivative := deriv,
            last_output := Some output, last_input := Some x, last_time := now\<rparr>))"
  using assms by (auto simp add: pid_call_def Let_def split: option.splits)

lemma pid_call_fields:
  "Kp (snd (pid_call p x now)) = Kp p" "Ki (snd (pid_call p x now)) = Ki p"
  "Kd (snd (pid_call p x now)) = Kd p" "setpoint (snd (pid_call p x now)) = setpoint p"
  "sample_time (snd (pid_call p x now)) = sample_time p"
  "output_limits (snd (pid_call p x now)) = output_limits p"
  by (simp_all add: pid_call_def Let_def)

lemma clamp_no_limits: "clamp v (None, None) = v"
  by (simp add: clamp_def)

lemma pid_call_integral_Ki0:
  "Ki p = 0 \<Longrightarrow> output_limits p = (None, None) \<Longrightarrow> integral (snd (pid_call p x now)) = integral p"
  by (simp add: pid_call_def Let_def clamp_no_limits)

lemma pid_calls_snoc: "pid_calls p (cs @ [(x, t)]) = snd (pid_call (pid_calls p cs) x t)"
  by (simp add: pid_calls_def)

lemma pid_calls_invariant:
  "Kp (pid_calls p cs) = Kp p \<and> Ki (pid_calls p cs) = Ki p \<and> Kd (pid_calls p cs) = Kd p
   \<and> setpoint (pid_calls p cs) = setpoint p \<and> sample_time (pid_calls p cs) = sample_time p
   \<and> output_limits (pid_calls p cs) = output_limits p"
proof (induction cs rule: rev_induct)
  case Nil
  show ?case by (simp add: pid_calls_def)
next
  case (snoc c cs)
  obtain x t where c: "c = (x, t)" by (cases c)
  show ?case using snoc unfolding c pid_calls_snoc by (simp add: pid_call_fields)
qed

lemma pid_calls_integral:
  "Ki p = 0 \<Longrightarrow> output_limits p = (None, None) \<Longrightarrow> integral (pid_calls p cs) = integral p"
proof (induction cs rule: rev_induct)
  case Nil
  show ?case by (simp add: pid_calls_def)
next
  case (snoc c cs)
  obtain x t where c: "c = (x, t)" by (cases c)
  have "Ki (pid_calls p cs) = 0" "output_limits (pid_calls p cs) = (None, None)"
    using snoc.prems pid_calls_invariant [of p cs] by simp_all
  then show ?case using snoc unfolding c pid_calls_snoc by (simp add: pid_call_integral_Ki0)
qed

text \<open>
  Claim C3, as stated: of two calls closer together than the sample time, the second
  returns no output value, and the integral only advances when the time since the previous
  computation is at least the sample time. With the controller of the control cell, built
  at clock reading 0 and called at 1 and at 2, the second call returns the value -0.8 of
  the first. And the first call of a controller always computes: with \<open>Ki = 1\<close> the call
  at reading 1, less than the sample time of 5 after construction, changes the integral.
\<close>

theorem pid_gating_counterexample:
  "fst (pid_call (snd (pid_call (PID_init k_p k_i k_d target_voltage (Some update_interval) 0) 1 1)) 1 2)
     = Some (- 0.8)
   \<and> integral (snd (pid_call (PID_init 1 1 0 0.2 (Some 5) 0) 1 1)) \<noteq> integral (PID_init 1 1 0 0.2 (Some 5) 0)"
  by (simp add: pid_call_def PID_init_def Let_def clamp_def k_p_def k_i_def k_d_def
      target_voltage_def update_interval_def)

text \<open>
  Claim C3, amended. Take a call that leaves the controller's previous time at its own
  clock reading \<open>t1\<close>, and a next call at a reading \<open>t2\<close> less than the sample time after
  \<open>t1\<close> (the sample time being above the \<open>1e-16\<close> that the controller takes for a time
  difference of zero). The second call returns an output value, the same one as the first call, and
  leaves the controller as it was, integral included. (The integral can only change
  in a call that computes: the first call of a controller, or a call at least the sample
  time after the previous computation.)
\<close>

theorem pid_sample_gating:
  assumes "sample_time p = Some st" and "1 / 10 ^ 16 < st"
    and "pid_call p x1 t1 = (o1, p1)" and "last_time p1 = t1"
    and "t2 - t1 < st"
  shows "o1 \<noteq> None \<and> pid_call p1 x2 t2 = (o1, p1)
     \<and> integral (snd (pid_call p1 x2 t2)) = integral p1"
proof -
  define g where "g \<longleftrightarrow> (if t1 - last_time p \<noteq> 0 then t1 - last_time p else 1 / 10 ^ 16) < st
      \<and> last_output p \<noteq> None"
  have o: "o1 \<noteq> None \<and> last_output p1 = o1 \<and> sample_time p1 = Some st"
  proof (cases g)
    case True
    then have "pid_call p x1 t1 = (last_output p, p)"
      using assms(1) by (simp add: pid_call_def Let_def g_def)
    then have "o1 = last_output p" "p1 = p" using assms(3) by simp_all
    then show ?thesis using True assms(1) by (simp add: g_def)
  next
    case False
    then have "fst (pid_call p x1 t1) = last_output (snd (pid_call p x1 t1))
        \<and> fst (pid_call p x1 t1) \<noteq> None"
      using assms(1) by (simp add: pid_call_def Let_def g_def)
    moreover have "sample_time (snd (pid_call p x1 t1)) = sample_time p"
      by (rule pid_call_fields)
    ultimately show ?thesis using assms(1,3) by auto
  qed
  then obtain u where u: "last_output p1 = Some u" by auto
  have "(if t2 - last_time p1 \<noteq> 0 then t2 - last_time p1 else 1 / 10 ^ 16) < st"
    using assms(2,4,5) by simp
  then have "pid_call p1 x2 t2 = (Some u, p1)"
    using o u by (intro pid_call_gated) simp_all
  then show ?thesis using o u by simp
qed

theorem pid_sample_gating_witness:
  "sample_time (PID_init 1 1 0 0.2 (Some 5) 0) = Some 5 \<and> (1::real) / 10 ^ 16 < 5
   \<and> last_time (snd (pid_call (PID_init 1 1 0 0.2 (Some 5) 0) 1 1)) = 1
   \<and> (2::real) - 1 < 5
   \<and> pid_call (snd (pid_call (PID_init 1 1 0 0.2 (Some 5) 0) 1 1)) 0 2
       = pid_call (PID_init 1 1 0 0.2 (Some 5) 0) 1 1
   \<and> fst (pid_call (PID_init 1 1 0 0.2 (Some 5) 0) 1 1) = Some (- 1.6)"
proof -
  let ?p = "PID_init 1 1 0 0.2 (Some 5) 0"
  have a: "sample_time ?p = Some 5" by (simp add: PID_init_def)
  have b: "(1::real) / 10 ^ 16 < 5" by simp
  have c: "pid_call ?p 1 1 = (fst (pid_call ?p 1 1), snd (pid_call ?p 1 1))" by simp
  have d: "last_time (snd (pid_call ?p 1 1)) = 1"
    by (simp add: pid_call_def PID_init_def Let_def)
  have e: "(2::real) - 1 < 5" by simp
  have f: "fst (pid_call ?p 1 1) = Some (- 1.6)"
    by (simp add: pid_call_def PID_init_def Let_def clamp_def)
  show ?thesis using pid_sample_gating [OF a b c d e, of 0] a b d e f by simp
qed

subsection \<open>No clamp on the output\<close>

lemma cos_1_6_negative: "cos (1.6::real) < 0"
proof -
  have b: "cos_bounds 16000000000000000 = Some (- 291995223012890, - 291995223012886)"
    by (simp add: cos_bounds_def cos_iv_numeral fx_def)
  have "cos (real_of_int 16000000000000000 / real_of_int fx)
      \<le> real_of_int (- 291995223012886) / real_of_int fx"
    using cos_bounds_sound [OF _ _ b] by (simp add: fx_def)
  then show ?thesis by (simp add: fx_def)
qed

lemma pi_less_3_2: "pi < 3.2"
proof (rule ccontr)
  assume "\<not> pi < 3.2"
  then have "(1.6::real) \<le> pi / 2" by simp
  moreover have "- (pi / 2) \<le> (1.6::real)" using pi_ge_zero by linarith
  ultimately have "0 \<le> cos (1.6::real)" by (intro cos_ge_zero)
  then show False using cos_1_6_negative by simp
qed

lemma control_cell_pid_call:
  assumes "p = pid_calls (PID_init k_p k_i k_d target_voltage (Some update_interval) t0) cs"
    and "last_output p = None
       \<or> update_interval \<le> (if now - last_time p \<noteq> 0 then now - last_time p else 1 / 10 ^ 16)"
  shows "fst (pid_call p x now) = Some (target_voltage - x)"
proof -
  let ?p0 = "PID_init k_p k_i k_d target_voltage (Some update_interval) t0"
  have i: "Kp p = 1" "Ki p = 0" "Kd p = 0" "setpoint p = target_voltage"
    "sample_time p = Some update_interval" "output_limits p = (None, None)"
    using pid_calls_invariant [of ?p0 cs] assms(1)
    by (simp_all add: PID_init_def k_p_def k_i_def k_d_def)
  have "integral p = integral ?p0"
    unfolding assms(1) by (rule pid_calls_integral) (simp_all add: PID_init_def k_i_def)
  then have j: "integral p = 0" by (simp add: PID_init_def clamp_no_limits)
  have "last_output p = None \<or> (\<forall>st. sample_time p = Some st \<longrightarrow>
      st \<le> (if now - last_time p \<noteq> 0 then now - last_time p else 1 / 10 ^ 16))"
    using assms(2) i(5) by auto
  then show ?thesis
    by (simp add: pid_call_computes Let_def i j clamp_no_limits)
qed

text \<open>
  Claim C1, as stated: every output of the controller has magnitude at most
  \<open>\<pi>/4\<close>. The control cell builds the controller without output limits; at the measured
  voltage 1.0 its first output is -0.8, and \<open>\<pi>/4 < 0.8\<close>. (The recorded run of the
  simulation starts with this control value.)
\<close>

theorem pid_output_exceeds_limit_counterexample:
  "fst (pid_call (PID_init k_p k_i k_d target_voltage (Some update_interval) 0) 1 5) = Some (- 0.8)
   \<and> pi / 4 < \<bar>- 0.8 :: real\<bar>"
proof -
  have "fst (pid_call (PID_init k_p k_i k_d target_voltage (Some update_interval) 0) 1 5) = Some (- 0.8)"
    by (simp add: pid_call_def PID_init_def Let_def clamp_def k_p_def k_i_def k_d_def
        target_voltage_def update_interval_def)
  moreover have "pi / 4 < \<bar>- 0.8 :: real\<bar>" using pi_less_3_2 by simp
  ultimately show ?thesis by simp
qed

text \<open>
  Claim C1, amended. The controller of the control cell (gains 1, 0, 0, setpoint 0.2, no
  output limits), after any sequence of calls, returns \<open>setpoint - measurement\<close> whenever
  it computes a new output: no clamp is applied, and the magnitude of the output is at most
  \<open>\<pi>/4\<close> only when the measurement is within \<open>\<pi>/4\<close> of the setpoint. The loop adds the
  output to the angle read from the mount and passes the sum to \<open>move_to\<close> as it is.
\<close>

theorem control_output_not_clamped:
  "(p = pid_calls (PID_init k_p k_i k_d target_voltage (Some update_interval) t0) cs
      \<and> (last_output p = None
          \<or> update_interval \<le> (if t - last_time p \<noteq> 0 then t - last_time p else 1 / 10 ^ 16))
      \<longrightarrow> fst (pid_call p x t) = Some (target_voltage - x))
   \<and> (get_angle (ser st) = (Inr \<theta>, s') \<and> update_interval \<le> now - last_update_time st
      \<longrightarrow> (\<exists>u st'. fst (pid_call (pid st) v clock) = Some u
              \<and> loop_body v clock now st = Inr st'
              \<and> ser st' = move_to (\<theta> + u) s'))"
proof (intro conjI impI)
  assume "p = pid_calls (PID_init k_p k_i k_d target_voltage (Some update_interval) t0) cs
      \<and> (last_output p = None
          \<or> update_interval \<le> (if t - last_time p \<noteq> 0 then t - last_time p else 1 / 10 ^ 16))"
  then show "fst (pid_call p x t) = Some (target_voltage - x)"
    using control_cell_pid_call [of p t0 cs t x] by blast
next
  assume "get_angle (ser st) = (Inr \<theta>, s') \<and> update_interval \<le> now - last_update_time st"
  then show "\<exists>u st'. fst (pid_call (pid st) v clock) = Some u
              \<and> loop_body v clock now st = Inr st'
              \<and> ser st' = move_to (\<theta> + u) s'"
    using loop_body_actuates [of st \<theta> s' now v clock] by blast
qed

theorem control_output_not_clamped_witness:
  "PID_init k_p k_i k_d target_voltage (Some update_interval) 0
      = pid_calls (PID_init k_p k_i k_d target_voltage (Some update_interval) 0) []
   \<and> last_output (PID_init k_p k_i k_d target_voltage (Some update_interval) 0) = None
   \<and> fst (pid_call (PID_init k_p k_i k_d target_voltage (Some update_interval) 0) 1 5)
       = Some (target_voltage - 1)
   \<and> get_angle (ser (loop_init 0 0 \<lparr>written = [], incoming = [''0PO00000000'' @ CRLF]\<rparr>))
       = (Inr 0, \<lparr>written = [''0gp'' @ CRLF], incoming = []\<rparr>)
   \<and> update_interval \<le> 5 - last_update_time (loop_init 0 0 \<lparr>written = [], incoming = [''0PO00000000'' @ CRLF]\<rparr>)
   \<and> \<not> isl (loop_body 1 5 5 (loop_init 0 0 \<lparr>written = [], incoming = [''0PO00000000'' @ CRLF]\<rparr>))"
proof -
  let ?p = "PID_init k_p k_i k_d target_voltage (Some update_interval) 0"
  let ?st = "loop_init 0 0 \<lparr>written = [], incoming = [''0PO00000000'' @ CRLF]\<rparr>"
  have a: "?p = pid_calls ?p []" by (simp add: pid_calls_def)
  have b: "last_output ?p = None" by (simp add: PID_init_def)
  have c: "get_angle (ser ?st) = (Inr 0, \<lparr>written = [''0gp'' @ CRLF], incoming = []\<rparr>)"
    using get_angle_zero [of "[]" "[]"] by (simp add: loop_init_def)
  have d: "update_interval \<le> 5 - last_update_time ?st"
    by (simp add: loop_init_def update_interval_def)
  have "fst (pid_call ?p 1 5) = Some (target_voltage - 1)"
    using control_output_not_clamped [where p = ?p and ?t0.0 = 0 and cs = "[]" and t = 5 and x = 1]
      a b by blast
  moreover have "\<exists>st'. loop_body 1 5 5 ?st = Inr st'"
    using control_output_not_clamped [where st = ?st and \<theta> = 0
        and s' = "\<lparr>written = [''0gp'' @ CRLF], incoming = []\<rparr>" and now = 5 and v = 1 and clock = 5]
      c d by blast
  ultimately show ?thesis using a b c d by auto
qed

section \<open>The simulated run\<close>

text \<open>
  With gains 1, 0, 0 and an iteration every three seconds the controller computes at every
  iteration and the \<open>if\<close> fires at every iteration: each iteration adds the error
  \<open>0.2 - get_voltage(angle)\<close> to the angle and prints a line.
\<close>

subsection \<open>The run of the schedule\<close>

lemma sim_after_init: "sim_after 0 (sim_init 0 0 0)"
  by (simp add: sim_after_def sim_init_def PID_init_def sim_update_interval_def clamp_def
      sim_angle_def)

lemma sim_body_step:
  assumes "sim_after k st"
  shows "\<exists>st'. sim_body (sim_clock_at (3 * real (Suc k))) st = Inr st' \<and> sim_after (Suc k) st'"
proof -
  let ?t = "3 * real (Suc k)"
  let ?v = "sim_get_voltage (sim_angle k)"
  have dt: "?t - last_time (sim_pid st) = 3" using assms by (simp add: sim_after_def)
  have "pid_call (sim_pid st) ?v ?t =
     (Some (0.2 - ?v),
      (sim_pid st)\<lparr>proportional := 0.2 - ?v, integral := 0, derivative := 0,
        last_output := Some (0.2 - ?v), last_input := Some ?v, last_time := ?t\<rparr>)"
    using assms dt
    by (simp add: pid_call_def Let_def sim_after_def clamp_def)
  then show ?thesis
    using assms
    by (simp add: sim_body_def Let_def sim_after_def sim_clock_at_def sim_update_interval_def
        sim_line_def sim_angle_def sim_tick_def)
qed

lemma sim_loop_steps:
  assumes "sim_after k st" "k + n \<le> 14"
  shows "\<exists>st'. sim_loop st (map (\<lambda>i. sim_clock_at (3 * real i)) [Suc k..<Suc (k + n)] @ cs)
            = sim_loop st' cs \<and> sim_after (k + n) st'"
  using assms
proof (induction n arbitrary: k st)
  case 0
  then show ?case by auto
next
  case (Suc n)
  obtain st1 where s1: "sim_body (sim_clock_at (3 * real (Suc k))) st = Inr st1"
    and a1: "sim_after (Suc k) st1"
    using sim_body_step [OF Suc.prems(1)] by blast
  have w: "t_while (sim_clock_at (3 * real (Suc k))) - start_time st < 45"
    using Suc.prems by (simp add: sim_clock_at_def sim_after_def)
  have l: "[Suc k..<Suc (k + Suc n)] = Suc k # [Suc (Suc k)..<Suc (Suc k + n)]"
    by (simp add: upt_conv_Cons)
  obtain st' where "sim_loop st1 (map (\<lambda>i. sim_clock_at (3 * real i)) [Suc (Suc k)..<Suc (Suc k + n)] @ cs)
            = sim_loop st' cs" and "sim_after (Suc k + n) st'"
    using Suc.IH [OF a1] Suc.prems(2) by auto
  then show ?case using s1 w unfolding l by auto
qed

lemma upt_14: "[0..<14] = [0, 1, 2, 3, 4, 5, 6, 7, 8, 9, 10, 11, 12, 13]"
  by code_simp

lemma sim_run:
  "\<exists>st. sim_loop (sim_init 0 0 0) sim_schedule = Inr st \<and> printed st = map sim_line [0..<14]"
proof -
  have "[1..<16] = [Suc 0..<Suc (0 + 14)] @ [15]"
    using upt_Suc_append [of 1 15] by simp
  then have s: "sim_schedule = map (\<lambda>i. sim_clock_at (3 * real i)) [Suc 0..<Suc (0 + 14)] @ [sim_clock_at 45]"
    by (simp only: sim_schedule_def map_append) simp
  obtain st where a: "sim_loop (sim_init 0 0 0) sim_schedule = sim_loop st [sim_clock_at 45]"
    and b: "sim_after (0 + 14) st"
    unfolding s using sim_loop_steps [OF sim_after_init, of 14 "[sim_clock_at 45]"] by auto
  have "sim_loop st [sim_clock_at 45] = Inr st"
    using b by (simp add: sim_after_def sim_clock_at_def)
  then show ?thesis using a b by (auto simp add: sim_after_def)
qed

subsection \<open>Enclosures of the fourteen angles and voltages\<close>

lemma volt_1: "volt_iv (- 8000000000000000, - 8000000000000000) = Some (8526121026234, 8526121026235)"
  by code_simp

lemma volt_2: "volt_iv (- 6008526121026235, - 6008526121026234) = Some (1301534724806645, 1301534724806650)"
  by code_simp

lemma volt_3: "volt_iv (- 5310060845832885, - 5310060845832879) = Some (2372817700340645, 2372817700340660)"
  by code_simp

lemma volt_4: "volt_iv (- 5682878546173545, - 5682878546173524) = Some (1769914137608923, 1769914137608960)"
  by code_simp

lemma volt_5: "volt_iv (- 5452792683782505, - 5452792683782447) = Some (2134348349800803, 2134348349800903)"
  by code_simp

lemma volt_6: "volt_iv (- 5587141033583408, - 5587141033583250) = Some (1918403866651102, 1918403866651356)"
  by code_simp

lemma volt_7: "volt_iv (- 5505544900234764, - 5505544900234352) = Some (2048535594875789, 2048535594876459)"
  by code_simp

lemma volt_8: "volt_iv (- 5554080495111223, - 5554080495110141) = Some (1970741910990026, 1970741910991752)"
  by code_simp

lemma volt_9: "volt_iv (- 5524822406102975, - 5524822406100167) = Some (2017502462301607, 2017502462306118)"
  by code_simp

lemma volt_10: "volt_iv (- 5542324868409093, - 5542324868401774) = Some (1989480360231949, 1989480360243641)"
  by code_simp

lemma volt_11: "volt_iv (- 5531805228652734, - 5531805228633723) = Some (2006305096464892, 2006305096495350)"
  by code_simp

lemma volt_12: "volt_iv (- 5538110325148084, - 5538110325098615) = Some (1996214567026957, 1996214567106056)"
  by code_simp

lemma volt_13: "volt_iv (- 5534324892254140, - 5534324892125572) = Some (2002270397672343, 2002270397878144)"
  by code_simp

lemma volt_14: "volt_iv (- 5536595290132284, - 5536595289797915) = Some (1998637452262194, 1998637452797053)"
  by code_simp

lemma trace_14:
  "trace_iv 14 (- 8000000000000000, - 8000000000000000) = Some
  [((- 8000000000000000, - 8000000000000000), 8526121026234, 8526121026235),
   ((- 6008526121026235, - 6008526121026234), 1301534724806645, 1301534724806650),
   ((- 5310060845832885, - 5310060845832879), 2372817700340645, 2372817700340660),
   ((- 5682878546173545, - 5682878546173524), 1769914137608923, 1769914137608960),
   ((- 5452792683782505, - 5452792683782447), 2134348349800803, 2134348349800903),
   ((- 5587141033583408, - 5587141033583250), 1918403866651102, 1918403866651356),
   ((- 5505544900234764, - 5505544900234352), 2048535594875789, 2048535594876459),
   ((- 5554080495111223, - 5554080495110141), 1970741910990026, 1970741910991752),
   ((- 5524822406102975, - 5524822406100167), 2017502462301607, 2017502462306118),
   ((- 5542324868409093, - 5542324868401774), 1989480360231949, 1989480360243641),
   ((- 5531805228652734, - 5531805228633723), 2006305096464892, 2006305096495350),
   ((- 5538110325148084, - 5538110325098615), 1996214567026957, 1996214567106056),
   ((- 5534324892254140, - 5534324892125572), 2002270397672343, 2002270397878144),
   ((- 5536595290132284, - 5536595289797915), 1998637452262194, 1998637452797053)]"
  by (simp add: trace_iv_numeral fx_def volt_1 volt_2 volt_3 volt_4 volt_5 volt_6 volt_7 volt_8 volt_9 volt_10 volt_11 volt_12 volt_13 volt_14)

lemma sim_angle_0: "sim_angle 0 = 0" "sim_get_voltage (sim_angle 0) = 1"
  by (simp_all add: sim_angle_def sim_get_voltage_def)

lemma sim_angle_Suc: "sim_angle (Suc i) = (sim_tick ^^ i) (- 0.8)"
proof -
  have "sim_tick 0 = - 0.8" by (simp add: sim_tick_def sim_get_voltage_def)
  then show ?thesis by (simp add: sim_angle_def funpow_swap1)
qed

lemma enclosure:
  assumes "0 < k" "k \<le> 14"
  shows "in_iv (fst (the (trace_iv 14 (- 8000000000000000, - 8000000000000000)) ! (k - 1))) (sim_angle k)
     \<and> in_iv (snd (the (trace_iv 14 (- 8000000000000000, - 8000000000000000)) ! (k - 1)))
          (sim_get_voltage (sim_angle k))"
proof -
  obtain i where k: "k = Suc i" using assms(1) by (cases k) auto
  then have i: "i < 14" using assms(2) by simp
  have "in_iv (- 8000000000000000, - 8000000000000000) (- 0.8)"
    by (simp add: in_iv_def fx_def)
  then show ?thesis
    using trace_iv_sound [OF trace_14 _ i, of "- 0.8"] unfolding k
    by (simp add: sim_angle_Suc trace_14)
qed

lemma bounds_1:
  "- 8000000000000000 / 10 ^ 16 \<le> sim_angle 1" "sim_angle 1 \<le> - 8000000000000000 / 10 ^ 16"
  "8526121026234 / 10 ^ 16 \<le> sim_get_voltage (sim_angle 1)" "sim_get_voltage (sim_angle 1) \<le> 8526121026235 / 10 ^ 16"
  using enclosure [of 1] by (simp_all add: trace_14 in_iv_def fx_def)

lemma bounds_2:
  "- 6008526121026235 / 10 ^ 16 \<le> sim_angle 2" "sim_angle 2 \<le> - 6008526121026234 / 10 ^ 16"
  "1301534724806645 / 10 ^ 16 \<le> sim_get_voltage (sim_angle 2)" "sim_get_voltage (sim_angle 2) \<le> 1301534724806650 / 10 ^ 16"
  using enclosure [of 2] by (simp_all add: trace_14 in_iv_def fx_def)

lemma bounds_3:
  "- 5310060845832885 / 10 ^ 16 \<le> sim_angle 3" "sim_angle 3 \<le> - 5310060845832879 / 10 ^ 16"
  "2372817700340645 / 10 ^ 16 \<le> sim_get_voltage (sim_angle 3)" "sim_get_voltage (sim_angle 3) \<le> 2372817700340660 / 10 ^ 16"
  using enclosure [of 3] by (simp_all add: trace_14 in_iv_def fx_def)

lemma bounds_4:
  "- 5682878546173545 / 10 ^ 16 \<le> sim_angle 4" "sim_angle 4 \<le> - 5682878546173524 / 10 ^ 16"
  "1769914137608923 / 10 ^ 16 \<le> sim_get_voltage (sim_angle 4)" "sim_get_voltage (sim_angle 4) \<le> 1769914137608960 / 10 ^ 16"
  using enclosure [of 4] by (simp_all add: trace_14 in_iv_def fx_def)

lemma bounds_5:
  "- 5452792683782505 / 10 ^ 16 \<le> sim_angle 5" "sim_angle 5 \<le> - 5452792683782447 / 10 ^ 16"
  "2134348349800803 / 10 ^ 16 \<le> sim_get_voltage (sim_angle 5)" "sim_get_voltage (sim_angle 5) \<le> 2134348349800903 / 10 ^ 16"
  using enclosure [of 5] by (simp_all add: trace_14 in_iv_def fx_def)

lemma bounds_6:
  "- 5587141033583408 / 10 ^ 16 \<le> sim_angle 6" "sim_angle 6 \<le> - 5587141033583250 / 10 ^ 16"
  "1918403866651102 / 10 ^ 16 \<le> sim_get_voltage (sim_angle 6)" "sim_get_voltage (sim_angle 6) \<le> 1918403866651356 / 10 ^ 16"
  using enclosure [of 6] by (simp_all add: trace_14 in_iv_def fx_def)

lemma bounds_7:
  "- 5505544900234764 / 10 ^ 16 \<le> sim_angle 7" "sim_angle 7 \<le> - 5505544900234352 / 10 ^ 16"
  "2048535594875789 / 10 ^ 16 \<le> sim_get_voltage (sim_angle 7)" "sim_get_voltage (sim_angle 7) \<le> 2048535594876459 / 10 ^ 16"
  using enclosure [of 7] by (simp_all add: trace_14 in_iv_def fx_def)

lemma bounds_8:
  "- 5554080495111223 / 10 ^ 16 \<le> sim_angle 8" "sim_angle 8 \<le> - 5554080495110141 / 10 ^ 16"
  "1970741910990026 / 10 ^ 16 \<le> sim_get_voltage (sim_angle 8)" "sim_get_voltage (sim_angle 8) \<le> 1970741910991752 / 10 ^ 16"
  using enclosure [of 8] by (simp_all add: trace_14 in_iv_def fx_def)

lemma bounds_9:
  "- 5524822406102975 / 10 ^ 16 \<le> sim_angle 9" "sim_angle 9 \<le> - 5524822406100167 / 10 ^ 16"
  "2017502462301607 / 10 ^ 16 \<le> sim_get_voltage (sim_angle 9)" "sim_get_voltage (sim_angle 9) \<le> 2017502462306118 / 10 ^ 16"
  using enclosure [of 9] by (simp_all add: trace_14 in_iv_def fx_def)

lemma bounds_10:
  "- 5542324868409093 / 10 ^ 16 \<le> sim_angle 10" "sim_angle 10 \<le> - 5542324868401774 / 10 ^ 16"
  "1989480360231949 / 10 ^ 16 \<le> sim_get_voltage (sim_angle 10)" "sim_get_voltage (sim_angle 10) \<le> 1989480360243641 / 10 ^ 16"
  using enclosure [of 10] by (simp_all add: trace_14 in_iv_def fx_def)

lemma bounds_11:
  "- 5531805228652734 / 10 ^ 16 \<le> sim_angle 11" "sim_angle 11 \<le> - 5531805228633723 / 10 ^ 16"
  "2006305096464892 / 10 ^ 16 \<le> sim_get_voltage (sim_angle 11)" "sim_get_voltage (sim_angle 11) \<le> 2006305096495350 / 10 ^ 16"
  using enclosure [of 11] by (simp_all add: trace_14 in_iv_def fx_def)

lemma bounds_12:
  "- 5538110325148084 / 10 ^ 16 \<le> sim_angle 12" "sim_angle 12 \<le> - 5538110325098615 / 10 ^ 16"
  "1996214567026957 / 10 ^ 16 \<le> sim_get_voltage (sim_angle 12)" "sim_get_voltage (sim_angle 12) \<le> 1996214567106056 / 10 ^ 16"
  using enclosure [of 12] by (simp_all add: trace_14 in_iv_def fx_def)

lemma bounds_13:
  "- 5534324892254140 / 10 ^ 16 \<le> sim_angle 13" "sim_angle 13 \<le> - 5534324892125572 / 10 ^ 16"
  "2002270397672343 / 10 ^ 16 \<le> sim_get_voltage (sim_angle 13)" "sim_get_voltage (sim_angle 13) \<le> 2002270397878144 / 10 ^ 16"
  using enclosure [of 13] by (simp_all add: trace_14 in_iv_def fx_def)

lemma bounds_14:
  "- 5536595290132284 / 10 ^ 16 \<le> sim_angle 14" "sim_angle 14 \<le> - 5536595289797915 / 10 ^ 16"
  "1998637452262194 / 10 ^ 16 \<le> sim_get_voltage (sim_angle 14)" "sim_get_voltage (sim_angle 14) \<le> 1998637452797053 / 10 ^ 16"
  using enclosure [of 14] by (simp_all add: trace_14 in_iv_def fx_def)

subsection \<open>The printed lines\<close>

lemma sim_get_voltage_0: "sim_get_voltage 0 = 1"
  by (simp add: sim_get_voltage_def)

lemma sim_line_0: "sim_line 0 = (- 0.8, - 0.8, sim_angle 1, sim_get_voltage (sim_angle 1))"
  by (simp add: sim_line_def sim_angle_0 sim_get_voltage_0)

lemma sim_line_1:
  "sim_line 1 = (0.2 - sim_get_voltage (sim_angle 1), 0.2 - sim_get_voltage (sim_angle 1),
     sim_angle 2, sim_get_voltage (sim_angle 2))"
  by (simp add: sim_line_def del: One_nat_def)

lemma sim_line_2:
  "sim_line 2 = (0.2 - sim_get_voltage (sim_angle 2), 0.2 - sim_get_voltage (sim_angle 2),
     sim_angle 3, sim_get_voltage (sim_angle 3))"
  by (simp add: sim_line_def)

lemma sim_line_3:
  "sim_line 3 = (0.2 - sim_get_voltage (sim_angle 3), 0.2 - sim_get_voltage (sim_angle 3),
     sim_angle 4, sim_get_voltage (sim_angle 4))"
  by (simp add: sim_line_def)

lemma sim_line_4:
  "sim_line 4 = (0.2 - sim_get_voltage (sim_angle 4), 0.2 - sim_get_voltage (sim_angle 4),
     sim_angle 5, sim_get_voltage (sim_angle 5))"
  by (simp add: sim_line_def)

lemma sim_line_5:
  "sim_line 5 = (0.2 - sim_get_voltage (sim_angle 5), 0.2 - sim_get_voltage (sim_angle 5),
     sim_angle 6, sim_get_voltage (sim_angle 6))"
  by (simp add: sim_line_def)

lemma sim_line_6:
  "sim_line 6 = (0.2 - sim_get_voltage (sim_angle 6), 0.2 - sim_get_voltage (sim_angle 6),
     sim_angle 7, sim_get_voltage (sim_angle 7))"
  by (simp add: sim_line_def)

lemma sim_line_7:
  "sim_line 7 = (0.2 - sim_get_voltage (sim_angle 7), 0.2 - sim_get_voltage (sim_angle 7),
     sim_angle 8, sim_get_voltage (sim_angle 8))"
  by (simp add: sim_line_def)

lemma sim_line_8:
  "sim_line 8 = (0.2 - sim_get_voltage (sim_angle 8), 0.2 - sim_get_voltage (sim_angle 8),
     sim_angle 9, sim_get_voltage (sim_angle 9))"
  by (simp add: sim_line_def)

lemma sim_line_9:
  "sim_line 9 = (0.2 - sim_get_voltage (sim_angle 9), 0.2 - sim_get_voltage (sim_angle 9),
     sim_angle 10, sim_get_voltage (sim_angle 10))"
  by (simp add: sim_line_def)

lemma sim_line_10:
  "sim_line 10 = (0.2 - sim_get_voltage (sim_angle 10), 0.2 - sim_get_voltage (sim_angle 10),
     sim_angle 11, sim_get_voltage (sim_angle 11))"
  by (simp add: sim_line_def)

lemma sim_line_11:
  "sim_line 11 = (0.2 - sim_get_voltage (sim_angle 11), 0.2 - sim_get_voltage (sim_angle 11),
     sim_angle 12, sim_get_voltage (sim_angle 12))"
  by (simp add: sim_line_def)

lemma sim_line_12:
  "sim_line 12 = (0.2 - sim_get_voltage (sim_angle 12), 0.2 - sim_get_voltage (sim_angle 12),
     sim_angle 13, sim_get_voltage (sim_angle 13))"
  by (simp add: sim_line_def)

lemma sim_line_13:
  "sim_line 13 = (0.2 - sim_get_voltage (sim_angle 13), 0.2 - sim_get_voltage (sim_angle 13),
     sim_angle 14, sim_get_voltage (sim_angle 14))"
  by (simp add: sim_line_def)

lemma printed_lines:
  "map sim_line [0..<14] =
    [(- 0.8, - 0.8, sim_angle 1, sim_get_voltage (sim_angle 1)),
     (0.2 - sim_get_voltage (sim_angle 1), 0.2 - sim_get_voltage (sim_angle 1),
      sim_angle 2, sim_get_voltage (sim_angle 2)),
     (0.2 - sim_get_voltage (sim_angle 2), 0.2 - sim_get_voltage (sim_angle 2),
      sim_angle 3, sim_get_voltage (sim_angle 3)),
     (0.2 - sim_get_voltage (sim_angle 3), 0.2 - sim_get_voltage (sim_angle 3),
      sim_angle 4, sim_get_voltage (sim_angle 4)),
     (0.2 - sim_get_voltage (sim_angle 4), 0.2 - sim_get_voltage (sim_angle 4),
      sim_angle 5, sim_get_voltage (sim_angle 5)),
     (0.2 - sim_get_voltage (sim_angle 5), 0.2 - sim_get_voltage (sim_angle 5),
      sim_angle 6, sim_get_voltage (sim_angle 6)),
     (0.2 - sim_get_voltage (sim_angle 6), 0.2 - sim_get_voltage (sim_angle 6),
      sim_angle 7, sim_get_voltage (sim_angle 7)),
     (0.2 - sim_get_voltage (sim_angle 7), 0.2 - sim_get_voltage (sim_angle 7),
      sim_angle 8, sim_get_voltage (sim_angle 8)),
     (0.2 - sim_get_voltage (sim_angle 8), 0.2 - sim_get_voltage (sim_angle 8),
      sim_angle 9, sim_get_voltage (sim_angle 9)),
     (0.2 - sim_get_voltage (sim_angle 9), 0.2 - sim_get_voltage (sim_angle 9),
      sim_angle 10, sim_get_voltage (sim_angle 10)),
     (0.2 - sim_get_voltage (sim_angle 10), 0.2 - sim_get_voltage (sim_angle 10),
      sim_angle 11, sim_get_voltage (sim_angle 11)),
     (0.2 - sim_get_voltage (sim_angle 11), 0.2 - sim_get_voltage (sim_angle 11),
      sim_angle 12, sim_get_voltage (sim_angle 12)),
     (0.2 - sim_get_voltage (sim_angle 12), 0.2 - sim_get_voltage (sim_angle 12),
      sim_angle 13, sim_get_voltage (sim_angle 13)),
     (0.2 - sim_get_voltage (sim_angle 13), 0.2 - sim_get_voltage (sim_angle 13),
      sim_angle 14, sim_get_voltage (sim_angle 14))]"
  unfolding upt_14 list.map
  by (simp only: sim_line_0 sim_line_1 sim_line_2 sim_line_3 sim_line_4 sim_line_5 sim_line_6 sim_line_7 sim_line_8 sim_line_9 sim_line_10 sim_line_11 sim_line_12 sim_line_13)

lemma trace_properties:
  fixes a1 v1 a2 v2 a3 v3 a4 v4 a5 v5 a6 v6 a7 v7 a8 v8 a9 v9 a10 v10 a11 v11 a12 v12 a13 v13 a14 v14 :: real
  assumes "- 8000000000000000 / 10 ^ 16 \<le> a1" "a1 \<le> - 8000000000000000 / 10 ^ 16"
    "8526121026234 / 10 ^ 16 \<le> v1" "v1 \<le> 8526121026235 / 10 ^ 16"
    "- 6008526121026235 / 10 ^ 16 \<le> a2" "a2 \<le> - 6008526121026234 / 10 ^ 16"
    "1301534724806645 / 10 ^ 16 \<le> v2" "v2 \<le> 1301534724806650 / 10 ^ 16"
    "- 5310060845832885 / 10 ^ 16 \<le> a3" "a3 \<le> - 5310060845832879 / 10 ^ 16"
    "2372817700340645 / 10 ^ 16 \<le> v3" "v3 \<le> 2372817700340660 / 10 ^ 16"
    "- 5682878546173545 / 10 ^ 16 \<le> a4" "a4 \<le> - 5682878546173524 / 10 ^ 16"
    "1769914137608923 / 10 ^ 16 \<le> v4" "v4 \<le> 1769914137608960 / 10 ^ 16"
    "- 5452792683782505 / 10 ^ 16 \<le> a5" "a5 \<le> - 5452792683782447 / 10 ^ 16"
    "2134348349800803 / 10 ^ 16 \<le> v5" "v5 \<le> 2134348349800903 / 10 ^ 16"
    "- 5587141033583408 / 10 ^ 16 \<le> a6" "a6 \<le> - 5587141033583250 / 10 ^ 16"
    "1918403866651102 / 10 ^ 16 \<le> v6" "v6 \<le> 1918403866651356 / 10 ^ 16"
    "- 5505544900234764 / 10 ^ 16 \<le> a7" "a7 \<le> - 5505544900234352 / 10 ^ 16"
    "2048535594875789 / 10 ^ 16 \<le> v7" "v7 \<le> 2048535594876459 / 10 ^ 16"
    "- 5554080495111223 / 10 ^ 16 \<le> a8" "a8 \<le> - 5554080495110141 / 10 ^ 16"
    "1970741910990026 / 10 ^ 16 \<le> v8" "v8 \<le> 1970741910991752 / 10 ^ 16"
    "- 5524822406102975 / 10 ^ 16 \<le> a9" "a9 \<le> - 5524822406100167 / 10 ^ 16"
    "2017502462301607 / 10 ^ 16 \<le> v9" "v9 \<le> 2017502462306118 / 10 ^ 16"
    "- 5542324868409093 / 10 ^ 16 \<le> a10" "a10 \<le> - 5542324868401774 / 10 ^ 16"
    "1989480360231949 / 10 ^ 16 \<le> v10" "v10 \<le> 1989480360243641 / 10 ^ 16"
    "- 5531805228652734 / 10 ^ 16 \<le> a11" "a11 \<le> - 5531805228633723 / 10 ^ 16"
    "2006305096464892 / 10 ^ 16 \<le> v11" "v11 \<le> 2006305096495350 / 10 ^ 16"
    "- 5538110325148084 / 10 ^ 16 \<le> a12" "a12 \<le> - 5538110325098615 / 10 ^ 16"
    "1996214567026957 / 10 ^ 16 \<le> v12" "v12 \<le> 1996214567106056 / 10 ^ 16"
    "- 5534324892254140 / 10 ^ 16 \<le> a13" "a13 \<le> - 5534324892125572 / 10 ^ 16"
    "2002270397672343 / 10 ^ 16 \<le> v13" "v13 \<le> 2002270397878144 / 10 ^ 16"
    "- 5536595290132284 / 10 ^ 16 \<le> a14" "a14 \<le> - 5536595289797915 / 10 ^ 16"
    "1998637452262194 / 10 ^ 16 \<le> v14" "v14 \<le> 1998637452797053 / 10 ^ 16"
    and ls: "ls =
      [(- 0.8, - 0.8, a1, v1),
       (0.2 - v1, 0.2 - v1, a2, v2),
       (0.2 - v2, 0.2 - v2, a3, v3),
       (0.2 - v3, 0.2 - v3, a4, v4),
       (0.2 - v4, 0.2 - v4, a5, v5),
       (0.2 - v5, 0.2 - v5, a6, v6),
       (0.2 - v6, 0.2 - v6, a7, v7),
       (0.2 - v7, 0.2 - v7, a8, v8),
       (0.2 - v8, 0.2 - v8, a9, v9),
       (0.2 - v9, 0.2 - v9, a10, v10),
       (0.2 - v10, 0.2 - v10, a11, v11),
       (0.2 - v11, 0.2 - v11, a12, v12),
       (0.2 - v12, 0.2 - v12, a13, v13),
       (0.2 - v13, 0.2 - v13, a14, v14)]"
  shows "(\<exists>v. hd ls = (- 0.8, - 0.8, - 0.8, v) \<and> \<bar>v - 0.000853\<bar> \<le> 5 / 10 ^ 7)"
    and "list_all2 (\<lambda>(e, c, a, v) (e', c', a', v').
            \<bar>e - e'\<bar> \<le> 5 / 10 ^ 7 \<and> \<bar>c - c'\<bar> \<le> 5 / 10 ^ 7
            \<and> \<bar>a - a'\<bar> \<le> 5 / 10 ^ 7 \<and> \<bar>v - v'\<bar> \<le> 5 / 10 ^ 7)
          ls recorded_output"
    and "map (\<lambda>l. 0 < fst l) ls
          = [False, True, True, False, True, False, True, False, True, False, True, False, True, False]"
    and "sorted_wrt (\<lambda>x y. \<bar>fst y\<bar> < \<bar>fst x\<bar>) ls"
    and "list_all (\<lambda>l. 1 / 1000 < \<bar>fst l\<bar>) (take 11 ls)"
    and "list_all (\<lambda>l. \<bar>fst l\<bar> < 1 / 1000) (drop 11 ls)"
proof -
  note b = assms(1-56)
  have a1: "a1 = - 0.8" using b(1,2) by simp
  have m: "\<bar>0.2 - v1\<bar> = 0.2 - v1"
    "\<bar>0.2 - v2\<bar> = 0.2 - v2"
    "\<bar>0.2 - v3\<bar> = v3 - 0.2"
    "\<bar>0.2 - v4\<bar> = 0.2 - v4"
    "\<bar>0.2 - v5\<bar> = v5 - 0.2"
    "\<bar>0.2 - v6\<bar> = 0.2 - v6"
    "\<bar>0.2 - v7\<bar> = v7 - 0.2"
    "\<bar>0.2 - v8\<bar> = 0.2 - v8"
    "\<bar>0.2 - v9\<bar> = v9 - 0.2"
    "\<bar>0.2 - v10\<bar> = 0.2 - v10"
    "\<bar>0.2 - v11\<bar> = v11 - 0.2"
    "\<bar>0.2 - v12\<bar> = 0.2 - v12"
    "\<bar>0.2 - v13\<bar> = v13 - 0.2"
    using b by simp_all
  show "(\<exists>v. hd ls = (- 0.8, - 0.8, - 0.8, v) \<and> \<bar>v - 0.000853\<bar> \<le> 5 / 10 ^ 7)"
    using b(3,4) unfolding ls by (simp add: a1)
  show "list_all2 (\<lambda>(e, c, a, v) (e', c', a', v').
            \<bar>e - e'\<bar> \<le> 5 / 10 ^ 7 \<and> \<bar>c - c'\<bar> \<le> 5 / 10 ^ 7
            \<and> \<bar>a - a'\<bar> \<le> 5 / 10 ^ 7 \<and> \<bar>v - v'\<bar> \<le> 5 / 10 ^ 7)
          ls recorded_output"
    unfolding ls recorded_output_def using b by (simp add: abs_le_iff)
  show "map (\<lambda>l. 0 < fst l) ls
          = [False, True, True, False, True, False, True, False, True, False, True, False, True, False]"
    unfolding ls using b by simp
  show "sorted_wrt (\<lambda>x y. \<bar>fst y\<bar> < \<bar>fst x\<bar>) ls"
    unfolding ls using b by (simp add: m)
  show "list_all (\<lambda>l. 1 / 1000 < \<bar>fst l\<bar>) (take 11 ls)"
    unfolding ls using b by (simp add: m)
  show "list_all (\<lambda>l. \<bar>fst l\<bar> < 1 / 1000) (drop 11 ls)"
    unfolding ls using b by (simp add: m)
qed

text \<open>
  Claim C9 says that after the first correction the errors alternate in sign. The second
  and the third printed error (0.199147 and 0.069847 in the recorded output) are
  both positive.
\<close>

theorem errors_do_not_alternate_counterexample:
  "0 < fst (printed (projr (sim_loop (sim_init 0 0 0) sim_schedule)) ! 1)
   \<and> 0 < fst (printed (projr (sim_loop (sim_init 0 0 0) sim_schedule)) ! 2)"
proof -
  obtain st where "sim_loop (sim_init 0 0 0) sim_schedule = Inr st"
    and "printed st = map sim_line [0..<14]"
    using sim_run by blast
  then show ?thesis
    using bounds_1(4) bounds_2(4) by (simp add: printed_lines)
qed

text \<open>
  Claim C9, amended. In the run of the simulation cell with one iteration every three
  seconds, fourteen lines are printed before the loop ends. The first correction has error
  and control -0.8 and drives the angle to -0.8, where the voltage is 0.000853 to six
  decimals. Every printed value agrees with the recorded output to within half a unit of
  the sixth decimal (so the errors are 0.199147, 0.069847, -0.037282 and so on). The second
  and third error are positive; from the third on the errors alternate in sign. The
  magnitudes of the errors decrease strictly. The first eleven errors are larger than
  0.001 in magnitude, the twelfth, thirteenth and fourteenth are smaller.
\<close>

theorem sim_reference_trace:
  "\<exists>st. sim_loop (sim_init 0 0 0) sim_schedule = Inr st
     \<and> (\<exists>v. hd (printed st) = (- 0.8, - 0.8, - 0.8, v) \<and> \<bar>v - 0.000853\<bar> \<le> 5 / 10 ^ 7)
     \<and> list_all2 (\<lambda>(e, c, a, v) (e', c', a', v').
            \<bar>e - e'\<bar> \<le> 5 / 10 ^ 7 \<and> \<bar>c - c'\<bar> \<le> 5 / 10 ^ 7
            \<and> \<bar>a - a'\<bar> \<le> 5 / 10 ^ 7 \<and> \<bar>v - v'\<bar> \<le> 5 / 10 ^ 7)
          (printed st) recorded_output
     \<and> map (\<lambda>l. 0 < fst l) (printed st)
          = [False, True, True, False, True, False, True, False, True, False, True, False, True, False]
     \<and> sorted_wrt (\<lambda>x y. \<bar>fst y\<bar> < \<bar>fst x\<bar>) (printed st)
     \<and> list_all (\<lambda>l. 1 / 1000 < \<bar>fst l\<bar>) (take 11 (printed st))
     \<and> list_all (\<lambda>l. \<bar>fst l\<bar> < 1 / 1000) (drop 11 (printed st))"
proof -
  obtain st where r: "sim_loop (sim_init 0 0 0) sim_schedule = Inr st"
    and p: "printed st = map sim_line [0..<14]"
    using sim_run by blast
  note q = p [unfolded printed_lines]
  note t = trace_properties [OF bounds_1 bounds_2 bounds_3 bounds_4 bounds_5 bounds_6 bounds_7 bounds_8 bounds_9 bounds_10 bounds_11 bounds_12 bounds_13 bounds_14 q]
  show ?thesis
    using r t by (intro exI [of _ st] conjI)
qed

end
